theory Spec2Isabelle
  imports Main "HOL-Library.Sublist" "HOL-Library.AList" "HOL-Library.Product_Lexorder"
begin

section \<open>JavaScript string primitives\<close>

text \<open>
  A JavaScript string is a sequence of UTF-16 code units. It is modelled as an Isabelle
  \<open>string\<close>, one \<open>char\<close> per code unit, which covers the code units below 256
  (ASCII and Latin-1). A regular expression with the \<open>i\<close> flag and an ASCII literal
  matches ASCII letters only, whatever their case.
\<close>

definition isWhiteSpace :: "char \<Rightarrow> bool" where
  \<comment> \<open>the class \<open>\s\<close> (and what \<open>trim\<close> removes), restricted to code units below 256\<close>
  "isWhiteSpace c \<longleftrightarrow>
     c = CHR 0x09 \<or> c = CHR 0x0A \<or> c = CHR 0x0B \<or> c = CHR 0x0C \<or> c = CHR 0x0D \<or>
     c = CHR 0x20 \<or> c = CHR 0xA0"

definition isLineTerminator :: "char \<Rightarrow> bool" where
  \<comment> \<open>what \<open>.\<close> does not match and where \<open>$\<close> matches under the \<open>m\<close> flag\<close>
  "isLineTerminator c \<longleftrightarrow> c = CHR 0x0A \<or> c = CHR 0x0D"

definition trim :: "string \<Rightarrow> string" where
  "trim s = rev (dropWhile isWhiteSpace (rev (dropWhile isWhiteSpace s)))"

definition strIncludes :: "string \<Rightarrow> string \<Rightarrow> bool" where
  \<comment> \<open>\<open>s.includes(t)\<close>: \<open>t\<close> occurs in \<open>s\<close> as a contiguous substring\<close>
  "strIncludes s t = sublist t s"

definition toUpperChars :: "char \<Rightarrow> string" where
  \<comment> \<open>the upper-case image of one code unit: ASCII and Latin-1 letters, and \<open>SS\<close> for
      U+00DF; the images of U+00B5 and U+00FF lie above 255 and cannot be written in
      this string type, so these two code units are left as they are\<close>
  "toUpperChars c =
     (let n = (of_char c :: nat) in
      if 97 \<le> n \<and> n \<le> 122 then [char_of (n - 32)]
      else if n = 223 then ''SS''
      else if 224 \<le> n \<and> n \<le> 254 \<and> n \<noteq> 247 then [char_of (n - 32)]
      else [c])"

definition toLowerChar :: "char \<Rightarrow> char" where
  \<comment> \<open>the lower-case image of one code unit: ASCII and Latin-1 letters\<close>
  "toLowerChar c =
     (let n = (of_char c :: nat) in
      if 65 \<le> n \<and> n \<le> 90 then char_of (n + 32)
      else if 192 \<le> n \<and> n \<le> 222 \<and> n \<noteq> 215 then char_of (n + 32)
      else c)"

definition toUpperCase :: "string \<Rightarrow> string" where
  "toUpperCase s = concat (map toUpperChars s)"

definition toLowerCase :: "string \<Rightarrow> string" where
  "toLowerCase s = map toLowerChar s"

fun collapseFrom :: "bool \<Rightarrow> string \<Rightarrow> string" where
  \<comment> \<open>the flag says that the previous character belonged to a whitespace run\<close>
  "collapseFrom inRun [] = []"
| "collapseFrom inRun (c # cs) =
     (if isWhiteSpace c
      then (if inRun then collapseFrom True cs else CHR '' '' # collapseFrom True cs)
      else c # collapseFrom False cs)"

definition collapseWhitespace :: "string \<Rightarrow> string" where
  \<comment> \<open>\<open>s.replace(/\s+/g, ' ')\<close>: every maximal whitespace run becomes one space\<close>
  "collapseWhitespace s = collapseFrom False s"

fun splitFrom :: "bool \<Rightarrow> string \<Rightarrow> string \<Rightarrow> string list" where
  \<comment> \<open>\<open>cur\<close> is the current piece, reversed\<close>
  "splitFrom inRun cur [] = [rev cur]"
| "splitFrom inRun cur (c # cs) =
     (if isWhiteSpace c
      then (if inRun then splitFrom True cur cs else rev cur # splitFrom True [] cs)
      else splitFrom False (c # cur) cs)"

definition splitWhitespace :: "string \<Rightarrow> string list" where
  \<comment> \<open>\<open>s.split(/\s+/)\<close>: leading or trailing whitespace yields an empty piece\<close>
  "splitWhitespace s = splitFrom False [] s"

function showNat :: "nat \<Rightarrow> string" where
  "showNat n =
     (if n < 10 then [char_of (48 + n)] else showNat (n div 10) @ [char_of (48 + n mod 10)])"
  by pat_completeness auto
termination
  by (relation "measure id") auto

definition showInt :: "int \<Rightarrow> string" where
  \<comment> \<open>a number in a template string: decimal digits (integers below \<open>10^21\<close> in magnitude)\<close>
  "showInt i = (if i < 0 then CHR ''-'' # showNat (nat (- i)) else showNat (nat i))"

fun joinWith :: "string \<Rightarrow> string list \<Rightarrow> string" where
  \<comment> \<open>\<open>xs.join(sep)\<close>\<close>
  "joinWith sep [] = []"
| "joinWith sep [x] = x"
| "joinWith sep (x # y # ys) = x @ sep @ joinWith sep (y # ys)"

subsection \<open>Regular expressions used by the validator\<close>

fun stripLineFrom :: "bool \<Rightarrow> string \<Rightarrow> string" where
  \<comment> \<open>the flag says that the scan is inside a match of \<open>--.*$\<close>\<close>
  "stripLineFrom inComment [] = []"
| "stripLineFrom True (c # cs) =
     (if isLineTerminator c then c # stripLineFrom False cs else stripLineFrom True cs)"
| "stripLineFrom False (c # cs) =
     (if c = CHR ''-'' \<and> prefix ''-'' cs then stripLineFrom True cs
      else c # stripLineFrom False cs)"

definition stripLineComments :: "string \<Rightarrow> string" where
  \<comment> \<open>\<open>s.replace(/--.*$/gm, '')\<close>: from \<open>--\<close> up to, not including, the line terminator\<close>
  "stripLineComments s = stripLineFrom False s"

fun findBlockEnd :: "string \<Rightarrow> string option" where
  \<comment> \<open>what follows the first \<open>*/\<close>, if there is one\<close>
  "findBlockEnd (a # b # cs) =
     (if a = CHR ''*'' \<and> b = CHR ''/'' then Some cs else findBlockEnd (b # cs))"
| "findBlockEnd _ = None"

function stripBlockComments :: "string \<Rightarrow> string" where
  \<comment> \<open>\<open>s.replace(/\/\*[\s\S]*?\*\//g, '')\<close>: leftmost \<open>/*\<close>, up to the nearest \<open>*/\<close> after it\<close>
  "stripBlockComments [] = []"
| "stripBlockComments (c # cs) =
     (if c = CHR ''/'' \<and> prefix ''*'' cs
      then (case findBlockEnd (tl cs) of
              Some rest \<Rightarrow> stripBlockComments rest
            | None \<Rightarrow> c # stripBlockComments cs)
      else c # stripBlockComments cs)"
  by pat_completeness auto
termination
proof (relation "measure length")
  show "wf (measure length)" by simp
next
  fix c :: char and cs rest :: string
  assume "findBlockEnd (tl cs) = Some rest"
  moreover have "findBlockEnd xs = Some ys \<Longrightarrow> length ys < length xs" for xs ys
    by (induction xs rule: findBlockEnd.induct) (auto split: if_splits)
  ultimately have "length rest < length (tl cs)" by blast
  then show "(rest, c # cs) \<in> measure length" by simp
qed auto

fun dotStarThen :: "string \<Rightarrow> string \<Rightarrow> bool" where
  \<comment> \<open>\<open>xs\<close> starts with a match of \<open>.*b\<close> (\<open>.\<close> is any character but a line terminator)\<close>
  "dotStarThen b [] = (b = [])"
| "dotStarThen b (c # cs) = (prefix b (c # cs) \<or> (\<not> isLineTerminator c \<and> dotStarThen b cs))"

fun testDotStar :: "string \<Rightarrow> string \<Rightarrow> string \<Rightarrow> bool" where
  \<comment> \<open>\<open>/a.*b/.test(xs)\<close> for literal \<open>a\<close> and \<open>b\<close>\<close>
  "testDotStar a b [] = (a = [] \<and> b = [])"
| "testDotStar a b (c # cs) =
     ((prefix a (c # cs) \<and> dotStarThen b (drop (length a) (c # cs))) \<or> testDotStar a b cs)"

fun testSpaced :: "string \<Rightarrow> string \<Rightarrow> string \<Rightarrow> bool" where
  \<comment> \<open>\<open>/a\s+b/.test(xs)\<close> for literal \<open>a\<close> and \<open>b\<close>\<close>
  "testSpaced a b [] = False"
| "testSpaced a b (c # cs) =
     ((prefix a (c # cs) \<and>
       (case drop (length a) (c # cs) of
          [] \<Rightarrow> False
        | d # ds \<Rightarrow> isWhiteSpace d \<and> prefix b (dropWhile isWhiteSpace ds)))
      \<or> testSpaced a b cs)"

section \<open>Security configuration\<close>

text \<open>
  \<open>securityConfig\<close> is read from the environment with \<open>parseInt\<close>, so its numbers are
  integers; the defaults are those of the configuration module.
\<close>

record SecurityConfig =
  maxExecutionTime :: int
  maxResultRows :: int
  maxQueryLength :: int
  allowedKeywords :: "string list"

definition defaultSecurityConfig :: SecurityConfig where
  "defaultSecurityConfig =
     \<lparr>maxExecutionTime = 30000, maxResultRows = 10000, maxQueryLength = 10000,
      allowedKeywords =
        [''SELECT'', ''FROM'', ''WHERE'', ''JOIN'', ''INNER'', ''LEFT'', ''RIGHT'', ''FULL'', ''OUTER'',
         ''ORDER'', ''BY'', ''GROUP'', ''HAVING'', ''LIMIT'', ''OFFSET'', ''DISTINCT'',
         ''AS'', ''AND'', ''OR'', ''NOT'', ''IN'', ''EXISTS'', ''BETWEEN'', ''LIKE'', ''IS'', ''NULL'',
         ''COUNT'', ''SUM'', ''AVG'', ''MIN'', ''MAX'', ''CASE'', ''WHEN'', ''THEN'', ''ELSE'', ''END'',
         ''UNION'', ''INTERSECT'', ''EXCEPT'', ''WITH'', ''RECURSIVE'',
         ''SHOW'', ''DESCRIBE'', ''DESC'', ''EXPLAIN'', ''ANALYZE'']\<rparr>"

section \<open>Query validator\<close>

text \<open>
  \<open>ValidationResult\<close> with the fields that decide admission: \<open>isValid\<close>, \<open>errors\<close> and
  \<open>sanitizedQuery\<close>. The \<open>warnings\<close> list (risky functions, complexity, performance
  hints) is only ever appended to and logged; it never feeds back into the other three
  fields and is left out, together with the logging calls. The \<open>catch\<close> branch of
  \<open>validate\<close> has no counterpart: on a string no operation of the \<open>try\<close> block throws.
\<close>

record ValidationResult =
  isValid :: bool
  errors :: "string list"
  sanitizedQuery :: "string option"

definition reject :: "string \<Rightarrow> ValidationResult \<Rightarrow> ValidationResult" where
  \<comment> \<open>\<open>result.isValid = false; result.errors.push(msg)\<close>\<close>
  "reject msg result = result\<lparr>isValid := False, errors := errors result @ [msg]\<rparr>"

definition forbiddenKeywords :: "string list" where
  "forbiddenKeywords =
     [''INSERT'', ''UPDATE'', ''DELETE'', ''REPLACE'', ''MERGE'',
      ''CREATE'', ''ALTER'', ''DROP'', ''TRUNCATE'', ''RENAME'',
      ''BEGIN'', ''COMMIT'', ''ROLLBACK'', ''START TRANSACTION'',
      ''GRANT'', ''REVOKE'', ''SET PASSWORD'', ''CREATE USER'', ''DROP USER'',
      ''LOAD DATA'', ''SELECT ... INTO OUTFILE'', ''LOAD_FILE'',
      ''CALL'', ''EXECUTE'', ''EXEC'',
      ''FLUSH'', ''RESET'', ''KILL'', ''SHUTDOWN'']"

definition testCI :: "string \<Rightarrow> string \<Rightarrow> bool" where
  \<comment> \<open>\<open>/lit/i.test(s)\<close> for a literal \<open>lit\<close> given in lower case\<close>
  "testCI lit s = strIncludes (toLowerCase s) lit"

text \<open>Each suspicious pattern is its \<open>source\<close> text paired with its \<open>test\<close>.\<close>

definition suspiciousPatterns :: "(string \<times> (string \<Rightarrow> bool)) list" where
  "suspiciousPatterns =
     [(''('|('' @ [CHR 0x5C] @ ''x27)|('' @ [CHR 0x5C] @ ''x2D'' @ [CHR 0x5C] @ ''x2D)|(%27)|(%2D%2D))'',
       \<lambda>s. testCI [CHR 0x27] s \<or> testCI ''--'' s \<or> testCI ''%27'' s \<or> testCI ''%2d%2d'' s),
      (''('' @ [CHR 0x5C] @ ''x00|'' @ [CHR 0x5C] @ ''n|'' @ [CHR 0x5C] @ ''r|'' @ [CHR 0x5C] @ ''x1a)'',
       \<lambda>s. CHR 0x00 \<in> set s \<or> CHR 0x0A \<in> set s \<or> CHR 0x0D \<in> set s \<or> CHR 0x1A \<in> set s),
      (''(union.*select)'', \<lambda>s. testDotStar ''union'' ''select'' (toLowerCase s)),
      (''(concat.*'' @ [CHR 0x5C] @ ''()'', \<lambda>s. testDotStar ''concat'' ''('' (toLowerCase s)),
      (''(information_schema)'', testCI ''information_schema''),
      (''(mysql'' @ [CHR 0x5C] @ ''.user)'', testCI ''mysql.user''),
      (''(into'' @ [CHR 0x5C] @ ''s+outfile)'', \<lambda>s. testSpaced ''into'' ''outfile'' (toLowerCase s)),
      (''(load_file)'', testCI ''load_file''),
      (''(@@)'', testCI ''@@''),
      (''(script)'', testCI ''script''),
      (''(javascript)'', testCI ''javascript''),
      (''(vbscript)'', testCI ''vbscript'')]"

definition validateBasicInput :: "SecurityConfig \<Rightarrow> string \<Rightarrow> ValidationResult \<Rightarrow> ValidationResult" where
  "validateBasicInput cfg query result =
     (if query = [] then reject ''Query must be a non-empty string'' result
      else if int (length query) > maxQueryLength cfg
      then reject (''Query exceeds maximum length of '' @ showInt (maxQueryLength cfg) @ '' characters'')
             result
      else if trim query = [] then reject ''Query cannot be empty or whitespace only'' result
      else result)"

definition normalizeQuery :: "string \<Rightarrow> string" where
  "normalizeQuery query =
     trim (stripBlockComments (stripLineComments (collapseWhitespace (trim query))))"

definition spaced :: "string \<Rightarrow> bool" where
  \<comment> \<open>the only whitespace is the space character, and never two in a row\<close>
  "spaced xs \<longleftrightarrow> (\<forall>c \<in> set xs. isWhiteSpace c \<longrightarrow> c = CHR '' '') \<and> \<not> sublist ''  '' xs"

definition checkForbiddenKeywords :: "SecurityConfig \<Rightarrow> string \<Rightarrow> ValidationResult \<Rightarrow> ValidationResult" where
  "checkForbiddenKeywords cfg query result =
     (let queryUpper = toUpperCase query;
          words = splitWhitespace queryUpper;
          result1 = foldl (\<lambda>r keyword.
                      if keyword \<in> set words \<or> strIncludes queryUpper keyword
                      then reject (''Forbidden keyword detected: '' @ keyword) r else r)
                    result forbiddenKeywords;
          firstWord = (case words of [] \<Rightarrow> [] | w # _ \<Rightarrow> w)
      in if firstWord \<noteq> [] \<and> firstWord \<notin> set (allowedKeywords cfg)
         then reject (''Operation '' @ [CHR 0x27] @ firstWord @ [CHR 0x27] @
                      '' is not allowed. Only read-only operations are permitted.'') result1
         else result1)"

definition checkSuspiciousPatterns :: "string \<Rightarrow> ValidationResult \<Rightarrow> ValidationResult" where
  "checkSuspiciousPatterns query result =
     foldl (\<lambda>r (source, test).
              if test query then reject (''Suspicious pattern detected: '' @ source) r else r)
       result suspiciousPatterns"

definition performAdvancedValidation :: "string \<Rightarrow> ValidationResult \<Rightarrow> ValidationResult" where
  \<comment> \<open>the one branch that touches \<open>errors\<close>; it pushes a message and leaves \<open>isValid\<close> alone\<close>
  "performAdvancedValidation query result =
     (if (testCI ''delete'' query \<or> testCI ''update'' query) \<and> \<not> testCI ''where'' query
      then result\<lparr>errors := errors result @ [''DELETE/UPDATE without WHERE clause is not allowed'']\<rparr>
      else result)"

definition validate :: "SecurityConfig \<Rightarrow> string \<Rightarrow> ValidationResult" where
  "validate cfg query =
     (let result = validateBasicInput cfg query \<lparr>isValid = True, errors = [], sanitizedQuery = None\<rparr>
      in if \<not> isValid result then result
         else
           let normalizedQuery = normalizeQuery query;
               result1 = checkForbiddenKeywords cfg normalizedQuery result;
               result2 = checkSuspiciousPatterns normalizedQuery result1;
               result3 = performAdvancedValidation normalizedQuery result2
           in result3\<lparr>sanitizedQuery := Some normalizedQuery\<rparr>)"

section \<open>Query results\<close>

text \<open>
  A row is a JavaScript object: column names with values, in key order. Numbers are
  integers throughout. \<open>QueryResult\<close> keeps the optional fields of the interface as
  options; its \<open>fields\<close> array is named \<open>fieldInfos\<close> here, and its \<open>analysis\<close>
  payload (dry runs only) is not modelled.
\<close>

datatype jsval = JNull | JNum int | JStr string | JBool bool

type_synonym row = "(string \<times> jsval) list"

record FieldInfo =
  fieldName :: string
  fieldType :: string
  fieldNullable :: bool

text \<open>
  What the driver hands back: an array of row packets, or a single non-array packet,
  of which only the presence and value of \<open>affectedRows\<close> is read.
\<close>

datatype dbResult = RowSet "row list" | OkPacket "int option"

datatype metadata =
    RawResult dbResult
  | AdapterMeta string string int  \<comment> \<open>\<open>{adapter, query, params}\<close>\<close>

record QueryResult =
  rows :: "row list"
  fieldInfos :: "FieldInfo list"
  rowCount :: int
  executionTime :: int
  truncated :: "bool option"
  totalRows :: "int option"
  metadata :: "metadata option"
  cached :: "bool option"
  cacheAge :: "int option"
  dryRun :: "bool option"

definition typeofJs :: "jsval \<Rightarrow> string" where
  "typeofJs v = (case v of JNull \<Rightarrow> ''object'' | JNum _ \<Rightarrow> ''number''
                 | JStr _ \<Rightarrow> ''string'' | JBool _ \<Rightarrow> ''boolean'')"

definition jsSlice0 :: "'a list \<Rightarrow> int \<Rightarrow> 'a list" where
  \<comment> \<open>\<open>xs.slice(0, e)\<close>: a negative end counts from the end of the array\<close>
  "jsSlice0 xs e = take (nat (if e < 0 then int (length xs) + e else e)) xs"

definition substring0 :: "string \<Rightarrow> nat \<Rightarrow> string" where
  \<comment> \<open>\<open>s.substring(0, n)\<close>\<close>
  "substring0 s n = take n s"

section \<open>Query executor\<close>

record QueryOptions =
  optTimeout :: "int option"
  optMaxRows :: "int option"
  optEnableAudit :: "bool option"
  optDryRun :: "bool option"

record QueryCacheEntry =
  entryKey :: string
  entryResult :: QueryResult
  entryTimestamp :: int
  entryTtl :: int

record AuditLog =
  auditTimestamp :: int
  auditQuery :: string
  auditExecutionTime :: int
  auditRowCount :: int
  auditSuccess :: bool
  auditErrorMessage :: "string option"

text \<open>
  How one \<open>database.query\<close> call made under \<open>executeWithTimeout\<close> ends: the call
  settles first (resolving with the driver's result or rejecting with a message), or the
  timer fires first. Either way the number is the time that has passed, in ms.
\<close>

datatype settled = Resolved dbResult | Rejected string

datatype raceOutcome = QueryFirst int settled | TimerFirst int

type_synonym database = "string \<Rightarrow> jsval list \<Rightarrow> raceOutcome"

text \<open>
  The executor's mutable state: the query cache (a \<open>Map\<close>, in insertion order), the
  audit ring, the clock read by \<open>Date.now()\<close>, and the record of the
  \<open>database.query\<close> calls made so far. The clock advances only while the executor
  awaits the database. Calls of the logger are not part of the state.
\<close>

record QueryExecutor =
  queryCache :: "(string \<times> QueryCacheEntry) list"
  auditLogs :: "AuditLog list"
  clock :: int
  dbCalls :: "(string \<times> jsval list) list"

definition cacheTTL :: int where
  "cacheTTL = 5 * 60 * 1000"

definition extractFields :: "row list \<Rightarrow> FieldInfo list" where
  "extractFields results =
     (case results of
        [] \<Rightarrow> []
      | firstRow # _ \<Rightarrow>
          map (\<lambda>(key, v). \<lparr>fieldName = key, fieldType = typeofJs v, fieldNullable = (v = JNull)\<rparr>)
            firstRow)"

definition executeQueryInternal :: "settled \<Rightarrow> int \<Rightarrow> string + QueryResult" where
  \<comment> \<open>the part after \<open>await this.database.query(query, parameters)\<close> has settled\<close>
  "executeQueryInternal reply maxRows =
     (case reply of
        Rejected e \<Rightarrow> Inl e
      | Resolved (RowSet results) \<Rightarrow>
          Inr \<lparr>rows = jsSlice0 results maxRows,
               fieldInfos = extractFields results,
               rowCount = int (length results),
               executionTime = 0,
               truncated = Some (int (length results) > maxRows),
               totalRows = Some (int (length results)),
               metadata = None, cached = None, cacheAge = None, dryRun = None\<rparr>
      | Resolved (OkPacket affectedRows) \<Rightarrow>
          Inr \<lparr>rows = [], fieldInfos = [],
               rowCount = (case affectedRows of Some n \<Rightarrow> n | None \<Rightarrow> 0),
               executionTime = 0,
               truncated = None, totalRows = None,
               metadata = Some (RawResult (OkPacket affectedRows)),
               cached = None, cacheAge = None, dryRun = None\<rparr>)"

definition executeWithTimeout ::
  "database \<Rightarrow> QueryExecutor \<Rightarrow> string \<Rightarrow> jsval list \<Rightarrow> int \<Rightarrow> int
     \<Rightarrow> QueryExecutor \<times> (string + QueryResult)" where
  "executeWithTimeout db st query parameters timeout maxRows =
     (let st1 = st\<lparr>dbCalls := dbCalls st @ [(query, parameters)]\<rparr> in
      case db query parameters of
        TimerFirst elapsed \<Rightarrow>
          (st1\<lparr>clock := clock st + elapsed\<rparr>,
           Inl (''Query timeout after '' @ showInt timeout @ ''ms''))
      | QueryFirst elapsed reply \<Rightarrow>
          (case executeQueryInternal reply maxRows of
             Inl e \<Rightarrow> (st1\<lparr>clock := clock st + elapsed\<rparr>, Inl e)
           | Inr result \<Rightarrow>
               (st1\<lparr>clock := clock st + elapsed\<rparr>, Inr (result\<lparr>executionTime := elapsed\<rparr>))))"

fun replaceBackslashS :: "bool \<Rightarrow> string \<Rightarrow> string" where
  \<comment> \<open>\<open>s.replace(/\\s+/g, ' ')\<close>: the pattern is a backslash followed by letters \<open>s\<close>;
      the flag says that the scan is inside such a run of \<open>s\<close>\<close>
  "replaceBackslashS inRun [] = []"
| "replaceBackslashS inRun (c # cs) =
     (if inRun \<and> c = CHR ''s'' then replaceBackslashS True cs
      else if c = CHR 0x5C \<and> prefix ''s'' cs then CHR '' '' # replaceBackslashS True (tl cs)
      else c # replaceBackslashS False cs)"

definition hexDigit :: "nat \<Rightarrow> char" where
  "hexDigit n = (if n < 10 then char_of (48 + n) else char_of (87 + n))"

definition jsonQuoteChar :: "char \<Rightarrow> string" where
  "jsonQuoteChar c =
     (if c = CHR 0x22 then [CHR 0x5C, CHR 0x22]
      else if c = CHR 0x5C then [CHR 0x5C, CHR 0x5C]
      else if c = CHR 0x08 then [CHR 0x5C, CHR ''b'']
      else if c = CHR 0x09 then [CHR 0x5C, CHR ''t'']
      else if c = CHR 0x0A then [CHR 0x5C, CHR ''n'']
      else if c = CHR 0x0C then [CHR 0x5C, CHR ''f'']
      else if c = CHR 0x0D then [CHR 0x5C, CHR ''r'']
      else if (of_char c :: nat) < 32
      then [CHR 0x5C, CHR ''u'', CHR ''0'', CHR ''0'',
            hexDigit (of_char c div 16), hexDigit (of_char c mod 16)]
      else [c])"

definition jsonValue :: "jsval \<Rightarrow> string" where
  "jsonValue v =
     (case v of
        JNull \<Rightarrow> ''null''
      | JNum n \<Rightarrow> showInt n
      | JBool b \<Rightarrow> (if b then ''true'' else ''false'')
      | JStr s \<Rightarrow> [CHR 0x22] @ concat (map jsonQuoteChar s) @ [CHR 0x22])"

definition jsonStringify :: "jsval list \<Rightarrow> string" where
  \<comment> \<open>\<open>JSON.stringify\<close> of an array of scalars\<close>
  "jsonStringify vs = ''['' @ joinWith '','' (map jsonValue vs) @ '']''"

definition generateCacheKey :: "string \<Rightarrow> jsval list \<Rightarrow> string" where
  "generateCacheKey query parameters =
     toLowerCase (trim (replaceBackslashS False query)) @ '':'' @ jsonStringify parameters"

definition getCachedResult :: "QueryExecutor \<Rightarrow> string \<Rightarrow> QueryExecutor \<times> QueryResult option" where
  "getCachedResult st cacheKey =
     (case map_of (queryCache st) cacheKey of
        None \<Rightarrow> (st, None)
      | Some entry \<Rightarrow>
          if clock st - entryTimestamp entry > entryTtl entry
          then (st\<lparr>queryCache := AList.delete cacheKey (queryCache st)\<rparr>, None)
          else (st, Some ((entryResult entry)
                           \<lparr>cached := Some True,
                            cacheAge := Some (clock st - entryTimestamp entry)\<rparr>)))"

definition cleanCache :: "QueryExecutor \<Rightarrow> QueryExecutor" where
  "cleanCache st =
     st\<lparr>queryCache :=
          filter (\<lambda>(key, entry). \<not> (clock st - entryTimestamp entry > entryTtl entry))
            (queryCache st)\<rparr>"

definition cacheResult :: "QueryExecutor \<Rightarrow> string \<Rightarrow> QueryResult \<Rightarrow> QueryExecutor" where
  "cacheResult st cacheKey result =
     (if rowCount result \<le> 1000 \<and> metadata result = None
      then
        let st1 = st\<lparr>queryCache :=
                      AList.update cacheKey
                        \<lparr>entryKey = cacheKey, entryResult = result,
                         entryTimestamp = clock st, entryTtl = cacheTTL\<rparr>
                        (queryCache st)\<rparr>
        in if length (queryCache st1) > 100 then cleanCache st1 else st1
      else st)"

definition shouldCacheQuery :: "string \<Rightarrow> bool" where
  "shouldCacheQuery query =
     (let queryUpper = trim (toUpperCase query) in
      if \<not> prefix ''SELECT'' queryUpper then False
      else \<not> list_ex (\<lambda>func. strIncludes queryUpper (toUpperCase func))
                 [''NOW()'', ''RAND()'', ''UUID()'', ''CONNECTION_ID()''])"

definition logAudit ::
  "QueryExecutor \<Rightarrow> string \<Rightarrow> int \<Rightarrow> int \<Rightarrow> bool \<Rightarrow> string option \<Rightarrow> QueryExecutor" where
  "logAudit st query execTime rowCnt success errorMessage =
     (let auditEntry = \<lparr>auditTimestamp = clock st, auditQuery = substring0 query 1000,
                         auditExecutionTime = execTime, auditRowCount = rowCnt,
                         auditSuccess = success, auditErrorMessage = errorMessage\<rparr>;
          logs = auditLogs st @ [auditEntry]
      in st\<lparr>auditLogs := (if length logs > 1000 then drop (length logs - 1000) logs else logs)\<rparr>)"

definition orDefault :: "int option \<Rightarrow> int \<Rightarrow> int" where
  \<comment> \<open>\<open>opt || dflt\<close> on an optional number: absent and \<open>0\<close> are falsy\<close>
  "orDefault opt dflt = (case opt of None \<Rightarrow> dflt | Some v \<Rightarrow> if v = 0 then dflt else v)"

definition executeQueryFailed ::
  "QueryExecutor \<Rightarrow> int \<Rightarrow> string \<Rightarrow> QueryOptions \<Rightarrow> string
     \<Rightarrow> QueryExecutor \<times> (string + QueryResult)" where
  \<comment> \<open>the \<open>catch\<close> block of \<open>executeQuery\<close>\<close>
  "executeQueryFailed st startTime query options errorMessage =
     (let execTime = clock st - startTime;
          st1 = (if optEnableAudit options \<noteq> Some False
                 then logAudit st query execTime 0 False (Some errorMessage) else st)
      in (st1, Inl (''Query execution failed: '' @ errorMessage)))"

definition executeQuery ::
  "SecurityConfig \<Rightarrow> database \<Rightarrow> QueryExecutor \<Rightarrow> string \<Rightarrow> jsval list \<Rightarrow> QueryOptions
     \<Rightarrow> QueryExecutor \<times> (string + QueryResult)" where
  "executeQuery cfg db st query parameters options =
     (let startTime = clock st;
          timeout = orDefault (optTimeout options) (maxExecutionTime cfg);
          maxRows = orDefault (optMaxRows options) (maxResultRows cfg);
          validation = validate cfg query
      in
      if \<not> isValid validation
      then executeQueryFailed st startTime query options
             (''Query validation failed: '' @ joinWith '', '' (errors validation))
      else
        let cacheKey = generateCacheKey query parameters;
            (st1, cachedResult) = getCachedResult st cacheKey
        in
        case (if optDryRun options = Some True then None else cachedResult) of
          Some hit \<Rightarrow> (st1, Inr hit)
        | None \<Rightarrow>
            if optDryRun options = Some True
            then (st1, Inr \<lparr>rows = [], fieldInfos = [], rowCount = 0,
                            executionTime = clock st1 - startTime,
                            truncated = None, totalRows = None, metadata = None,
                            cached = Some False, cacheAge = None, dryRun = Some True\<rparr>)
            else
              case executeWithTimeout db st1
                     (case sanitizedQuery validation of Some sq \<Rightarrow> sq | None \<Rightarrow> query)
                     parameters timeout maxRows of
                (st2, Inl errorMessage) \<Rightarrow>
                  executeQueryFailed st2 startTime query options errorMessage
              | (st2, Inr result) \<Rightarrow>
                  let st3 = (if shouldCacheQuery query then cacheResult st2 cacheKey result
                             else st2);
                      st4 = (if optEnableAudit options \<noteq> Some False
                             then logAudit st3 query (executionTime result) (rowCount result)
                                    True None
                             else st3)
                  in (st4, Inr result))"

section \<open>Adapter factory: database type detection\<close>

datatype DatabaseType = mysql | postgresql | sqlite

text \<open>
  The fields of \<open>DatabaseConfig\<close> that \<open>detectDatabaseType\<close> reads. The optional
  \<open>type\<close> is one of three non-empty string literals, so "present and truthy" is \<open>Some\<close>.
\<close>

record DatabaseConfig =
  host :: string
  port :: int
  dbType :: "DatabaseType option"

definition detectDatabaseType :: "DatabaseConfig \<Rightarrow> DatabaseType" where
  "detectDatabaseType config =
     (case dbType config of
        Some t \<Rightarrow> t
      | None \<Rightarrow>
          if port config = 3306 \<or> strIncludes (host config) ''mysql'' then mysql
          else if port config = 5432 \<or> strIncludes (host config) ''postgres'' then postgresql
          else mysql)"

section \<open>MySQL adapter: queries, transactions and disconnect\<close>

text \<open>
  The adapter's state as far as \<open>query\<close>, \<open>transaction\<close> and \<open>disconnect\<close> read
  and write it. The two ratio fields of the metrics (average time, success rate) are
  floating-point values derived from the counters kept here and are left out.
\<close>

datatype adapterEvent =
    QueryExecutedEvent int
  | QueryFailedEvent string
  | MetricsCollectedEvent
  | DisconnectedEvent

record MySQLAdapter =
  poolOpen :: bool  \<comment> \<open>\<open>this.pool\<close> is not \<open>null\<close>\<close>
  isShuttingDown :: bool
  isConnected :: bool
  connectionCount :: int
  activeQueries :: int
  metricsEnabled :: bool
  queriesExecuted :: int
  totalExecutionTime :: int
  errorCount :: int
  emitted :: "adapterEvent list"

text \<open>How \<open>pool.execute\<close> settles: with rows and fields, or with a driver error.\<close>

datatype executeOutcome = Executed int dbResult "FieldInfo list" | ExecuteFailed int string

definition updateMetrics :: "bool \<Rightarrow> int \<Rightarrow> MySQLAdapter \<Rightarrow> MySQLAdapter" where
  "updateMetrics success execTime a =
     (if \<not> metricsEnabled a then a
      else
        let a1 = a\<lparr>queriesExecuted := queriesExecuted a + 1,
                   totalExecutionTime := totalExecutionTime a + execTime\<rparr>;
            a2 = (if \<not> success then a1\<lparr>errorCount := errorCount a1 + 1\<rparr> else a1)
        in if queriesExecuted a2 mod 100 = 0
           then a2\<lparr>emitted := emitted a2 @ [MetricsCollectedEvent]\<rparr> else a2)"

definition queryDispatch :: "MySQLAdapter \<Rightarrow> string + MySQLAdapter" where
  \<comment> \<open>\<open>query\<close> up to the call of \<open>pool.execute\<close>: the two guards, then the increment\<close>
  "queryDispatch a =
     (if \<not> poolOpen a then Inl ''MySQL adapter not connected''
      else if isShuttingDown a then Inl ''MySQL adapter is shutting down''
      else Inr (a\<lparr>activeQueries := activeQueries a + 1\<rparr>))"

definition ellipsis100 :: "string \<Rightarrow> string" where
  \<comment> \<open>\<open>s.substring(0, 100) + (s.length > 100 ? '...' : '')\<close>\<close>
  "ellipsis100 s = substring0 s 100 @ (if length s > 100 then ''...'' else [])"

definition querySettle ::
  "executeOutcome \<Rightarrow> string \<Rightarrow> jsval list \<Rightarrow> MySQLAdapter
     \<Rightarrow> MySQLAdapter \<times> (string + QueryResult)" where
  \<comment> \<open>\<open>query\<close> from the moment \<open>pool.execute\<close> settles: \<open>try\<close> or \<open>catch\<close>, then \<open>finally\<close>\<close>
  "querySettle outcome sql params a =
     (case outcome of
        Executed execTime res flds \<Rightarrow>
          let a1 = updateMetrics True execTime a;
              rs = (case res of RowSet r \<Rightarrow> r | OkPacket _ \<Rightarrow> []);
              result = \<lparr>rows = rs, fieldInfos = flds, rowCount = int (length rs),
                        executionTime = execTime, truncated = None, totalRows = None,
                        metadata = Some (AdapterMeta ''mysql'' (ellipsis100 sql)
                                           (int (length params))),
                        cached = None, cacheAge = None, dryRun = None\<rparr>;
              a2 = a1\<lparr>emitted := emitted a1 @ [QueryExecutedEvent (rowCount result)]\<rparr>
          in (a2\<lparr>activeQueries := activeQueries a2 - 1\<rparr>, Inr result)
      | ExecuteFailed execTime err \<Rightarrow>
          let a1 = updateMetrics False execTime a;
              a2 = a1\<lparr>emitted := emitted a1 @ [QueryFailedEvent err]\<rparr>
          in (a2\<lparr>activeQueries := activeQueries a2 - 1\<rparr>, Inl err))"

definition transactionDispatch :: "MySQLAdapter \<Rightarrow> MySQLAdapter" where
  \<comment> \<open>one statement of \<open>transaction\<close> up to the call of \<open>connection.execute\<close>\<close>
  "transactionDispatch a = a\<lparr>activeQueries := activeQueries a + 1\<rparr>"

definition transactionSettle :: "bool \<Rightarrow> int \<Rightarrow> MySQLAdapter \<Rightarrow> MySQLAdapter" where
  \<comment> \<open>the same statement from the moment \<open>connection.execute\<close> settles: \<open>try\<close> or
      \<open>catch\<close>, then \<open>finally\<close>\<close>
  "transactionSettle success execTime a =
     (let a1 = updateMetrics success execTime a
      in a1\<lparr>activeQueries := activeQueries a1 - 1\<rparr>)"

definition disconnectBegin :: "MySQLAdapter \<Rightarrow> MySQLAdapter \<times> bool" where
  \<comment> \<open>\<open>disconnect\<close> up to the call of \<open>pool.end\<close>; the flag says that the call is now
      suspended there (without a pool it has returned)\<close>
  "disconnectBegin a =
     (if \<not> poolOpen a then (a, False) else (a\<lparr>isShuttingDown := True\<rparr>, True))"

definition disconnectSettle :: "bool \<Rightarrow> MySQLAdapter \<Rightarrow> MySQLAdapter" where
  \<comment> \<open>\<open>disconnect\<close> from the moment \<open>pool.end\<close> settles: resolved, or rejected (rethrown)\<close>
  "disconnectSettle ended a =
     (if ended
      then a\<lparr>poolOpen := False, isConnected := False, connectionCount := 0,
             activeQueries := 0, emitted := emitted a @ [DisconnectedEvent]\<rparr>
      else a)"

text \<open>
  \<open>query\<close>, \<open>transaction\<close> and \<open>disconnect\<close> are \<open>async\<close>: each runs up to an
  \<open>await\<close>, is suspended while the driver works, and runs on when the driver's promise
  settles. Between the two halves of one call the halves of other calls on the same
  adapter may run. A run of the adapter is therefore a sequence of steps: a call of
  \<open>query\<close> or \<open>disconnect\<close> (its first half), a statement of a transaction reaching
  \<open>connection.execute\<close>, or the settling of a suspended call or statement (its second
  half), in any order in which the driver may settle them. The suspended \<open>query\<close>
  calls are kept with their arguments and a settling step names the call by its
  position; of the suspended transaction statements and \<open>disconnect\<close> calls only the
  number is kept. The other awaits of \<open>transaction\<close> (connection, begin, commit,
  rollback) do not touch the adapter's state.
\<close>

record AdapterRun =
  adapterState :: MySQLAdapter
  pendingQueries :: "(string \<times> jsval list) list"
  pendingStatements :: nat
  pendingDisconnects :: nat

datatype adapterStep =
    CallQuery string "jsval list"
  | SettleQuery nat executeOutcome
  | TransactionExecute
  | TransactionSettle bool int
  | CallDisconnect
  | SettleDisconnect bool

fun step :: "adapterStep \<Rightarrow> AdapterRun \<Rightarrow> AdapterRun option" where
  "step (CallQuery sql params) r =
     (case queryDispatch (adapterState r) of
        Inl err \<Rightarrow> Some r
      | Inr a1 \<Rightarrow> Some (r\<lparr>adapterState := a1, pendingQueries := pendingQueries r @ [(sql, params)]\<rparr>))"
| "step (SettleQuery i outcome) r =
     (if i < length (pendingQueries r)
      then Some (r\<lparr>adapterState :=
                      fst (querySettle outcome (fst (pendingQueries r ! i))
                             (snd (pendingQueries r ! i)) (adapterState r)),
                    pendingQueries := take i (pendingQueries r) @ drop (Suc i) (pendingQueries r)\<rparr>)
      else None)"
| "step TransactionExecute r =
     Some (r\<lparr>adapterState := transactionDispatch (adapterState r),
             pendingStatements := pendingStatements r + 1\<rparr>)"
| "step (TransactionSettle success execTime) r =
     (if 0 < pendingStatements r
      then Some (r\<lparr>adapterState := transactionSettle success execTime (adapterState r),
                    pendingStatements := pendingStatements r - 1\<rparr>)
      else None)"
| "step CallDisconnect r =
     (case disconnectBegin (adapterState r) of
        (a1, suspended) \<Rightarrow>
          Some (r\<lparr>adapterState := a1,
                  pendingDisconnects := pendingDisconnects r + (if suspended then 1 else 0)\<rparr>))"
| "step (SettleDisconnect ended) r =
     (if 0 < pendingDisconnects r
      then Some (r\<lparr>adapterState := disconnectSettle ended (adapterState r),
                    pendingDisconnects := pendingDisconnects r - 1\<rparr>)
      else None)"

fun run :: "adapterStep list \<Rightarrow> AdapterRun \<Rightarrow> AdapterRun option" where
  \<comment> \<open>\<open>None\<close>: the sequence settles a call that is not suspended\<close>
  "run [] r = Some r"
| "run (s # ss) r = (case step s r of None \<Rightarrow> None | Some r1 \<Rightarrow> run ss r1)"

definition inFlight :: "AdapterRun \<Rightarrow> nat" where
  \<comment> \<open>the statements handed to the driver and not yet settled\<close>
  "inFlight r = length (pendingQueries r) + pendingStatements r"

definition activeQueriesAfter :: "adapterStep list \<Rightarrow> AdapterRun \<Rightarrow> int option" where
  "activeQueriesAfter ss r = map_option (\<lambda>r1. activeQueries (adapterState r1)) (run ss r)"

section \<open>Cross-database dispatcher\<close>

text \<open>
  For the dispatcher an adapter is what its \<open>query\<close> answers to a statement: a result or
  an error message. The connection manager holds the adapters by pool name.
\<close>

type_synonym adapter = "string \<Rightarrow> string + QueryResult"

record ConnectionManager =
  connections :: "(string \<times> adapter) list"
  defaultConnectionName :: "string option"

record CrossQuery =
  cqDatabase :: string
  cqQuery :: string
  cqAlias :: "string option"

record CrossResult =
  crDatabase :: string
  crAlias :: string
  crQuery :: string
  crExecutionTime :: int
  crRowCount :: int
  crRows :: "row list"
  crFields :: "FieldInfo list"

record CrossSummary =
  totalQueries :: int
  sumRows :: int  \<comment> \<open>\<open>summary.totalRows\<close>\<close>
  totalExecutionTimeSum :: int  \<comment> \<open>\<open>summary.totalExecutionTime\<close>\<close>

record CrossResponse =
  summary :: CrossSummary
  results :: "CrossResult list"

definition getConnection :: "ConnectionManager \<Rightarrow> string \<Rightarrow> string + adapter" where
  "getConnection mgr name =
     (let connectionName =
            (if name \<noteq> [] then name
             else (case defaultConnectionName mgr of Some d \<Rightarrow> d | None \<Rightarrow> []))
      in if connectionName = []
         then Inl ''No connection name specified and no default connection configured''
         else (case map_of (connections mgr) connectionName of
                 None \<Rightarrow>
                   Inl (''Database connection '' @ [CHR 0x27] @ connectionName @ [CHR 0x27] @
                        '' not found. Available: '' @
                        joinWith '', '' (map fst (connections mgr)))
               | Some adapter \<Rightarrow> Inr adapter))"

definition crossItem :: "ConnectionManager \<Rightarrow> CrossQuery \<Rightarrow> string + CrossResult" where
  \<comment> \<open>the \<open>async\<close> callback mapped over the queries\<close>
  "crossItem mgr q =
     (case getConnection mgr (cqDatabase q) of
        Inl err \<Rightarrow> Inl err
      | Inr adapter \<Rightarrow>
          (case adapter (cqQuery q) of
             Inl err \<Rightarrow> Inl err
           | Inr result \<Rightarrow>
               Inr \<lparr>crDatabase = cqDatabase q,
                    crAlias = (case cqAlias q of
                                 Some a \<Rightarrow> if a \<noteq> [] then a else cqDatabase q
                               | None \<Rightarrow> cqDatabase q),
                    crQuery = ellipsis100 (cqQuery q),
                    crExecutionTime = executionTime result,
                    crRowCount = rowCount result,
                    crRows = rows result,
                    crFields = fieldInfos result\<rparr>))"

fun promiseAll :: "(string + 'a) list \<Rightarrow> string + 'a list" where
  \<comment> \<open>\<open>Promise.all\<close>: all values in input order, or one rejection for the whole
      (here the first in input order; in time it is the first to reject)\<close>
  "promiseAll [] = Inr []"
| "promiseAll (Inl err # ps) = Inl err"
| "promiseAll (Inr v # ps) = (case promiseAll ps of Inl err \<Rightarrow> Inl err | Inr vs \<Rightarrow> Inr (v # vs))"

definition handleCrossDatabaseQuery :: "ConnectionManager \<Rightarrow> CrossQuery list \<Rightarrow> string + CrossResponse" where
  "handleCrossDatabaseQuery mgr queries =
     (if queries = [] then Inl ''Queries array is required''
      else
        case promiseAll (map (crossItem mgr) queries) of
          Inl err \<Rightarrow> Inl err
        | Inr rs \<Rightarrow>
            Inr \<lparr>summary =
                   \<lparr>totalQueries = int (length rs),
                    sumRows = foldl (\<lambda>sum r. sum + crRowCount r) 0 rs,
                    totalExecutionTimeSum = foldl (\<lambda>sum r. sum + crExecutionTime r) 0 rs\<rparr>,
                 results = rs\<rparr>)"

section \<open>Schema cache and its warm-up\<close>

text \<open>
  The cached payloads. Of a table only its name and optional row count are read by the
  cache; database info and profiles are opaque to it and are carried as text. The size
  estimate \<open>2 * JSON.stringify(data).length\<close> depends on the JSON rendering of these
  payloads and is a parameter \<open>sizeOf\<close> of the operations.
\<close>

record TableInfo =
  tableName :: string
  tableRowCount :: "int option"

record SchemaInfo =
  tables :: "TableInfo list"

datatype cacheData =
    DatabaseInfoData string
  | SchemaData SchemaInfo
  | RelationshipsData "(string \<times> string list) list"
  | TableData TableInfo
  | ProfileData string

record CacheEntry =
  entryData :: cacheData
  timestamp :: int
  ttl :: int
  hits :: int
  entrySize :: int

datatype logLevel = LogDebug | LogInfo | LogWarn | LogError

record SchemaCache =
  cache :: "(string \<times> CacheEntry) list"
  defaultTTL :: int
  maxSize :: int
  maxEntries :: int
  now :: int  \<comment> \<open>\<open>Date.now()\<close>\<close>
  logged :: "(logLevel \<times> string) list"

definition logMsg :: "logLevel \<Rightarrow> string \<Rightarrow> SchemaCache \<Rightarrow> SchemaCache" where
  "logMsg lvl msg c = c\<lparr>logged := logged c @ [(lvl, msg)]\<rparr>"

definition getTotalSize :: "SchemaCache \<Rightarrow> int" where
  "getTotalSize c = foldl (\<lambda>total (key, entry). total + entrySize entry) 0 (cache c)"

definition shouldEvict :: "SchemaCache \<Rightarrow> int \<Rightarrow> bool" where
  "shouldEvict c newEntrySize =
     (if int (length (cache c)) \<ge> maxEntries c then True
      else getTotalSize c + newEntrySize > maxSize c)"

fun evictionKeys :: "(string \<times> CacheEntry) list \<Rightarrow> int \<Rightarrow> int \<Rightarrow> string list" where
  \<comment> \<open>the loop that collects \<open>entriesToEvict\<close>: it stops once enough space is freed\<close>
  "evictionKeys [] freedSpace requiredSpace = []"
| "evictionKeys ((key, entry) # rest) freedSpace requiredSpace =
     (if freedSpace + entrySize entry \<ge> requiredSpace then [key]
      else key # evictionKeys rest (freedSpace + entrySize entry) requiredSpace)"

definition evictEntries :: "SchemaCache \<Rightarrow> int \<Rightarrow> SchemaCache" where
  "evictEntries c requiredSpace =
     (let sortedEntries = sort_key (\<lambda>(key, entry). (hits entry, timestamp entry)) (cache c);
          entriesToEvict = evictionKeys sortedEntries 0 requiredSpace;
          c1 = c\<lparr>cache := filter (\<lambda>(key, entry). key \<notin> set entriesToEvict) (cache c)\<rparr>
      in if entriesToEvict \<noteq> [] then logMsg LogInfo ''Cache eviction completed'' c1 else c1)"

definition cacheSet ::
  "(cacheData \<Rightarrow> int) \<Rightarrow> SchemaCache \<Rightarrow> string \<Rightarrow> cacheData \<Rightarrow> SchemaCache" where
  \<comment> \<open>\<open>set(key, data)\<close> with no explicit ttl\<close>
  "cacheSet sizeOf c key d =
     (let sz = sizeOf d;
          c1 = (if shouldEvict c sz then evictEntries c sz else c);
          entry = \<lparr>entryData = d, timestamp = now c, ttl = defaultTTL c, hits = 0,
                   entrySize = sz\<rparr>
      in logMsg LogDebug ''Cache set'' (c1\<lparr>cache := AList.update key entry (cache c1)\<rparr>))"

definition setDatabaseInfo :: "(cacheData \<Rightarrow> int) \<Rightarrow> SchemaCache \<Rightarrow> string \<Rightarrow> string \<Rightarrow> SchemaCache" where
  "setDatabaseInfo sizeOf c databaseName info =
     cacheSet sizeOf c (''dbinfo:'' @ databaseName) (DatabaseInfoData info)"

definition setFullSchema :: "(cacheData \<Rightarrow> int) \<Rightarrow> SchemaCache \<Rightarrow> string \<Rightarrow> SchemaInfo \<Rightarrow> SchemaCache" where
  "setFullSchema sizeOf c databaseName schema =
     cacheSet sizeOf c (''schema:'' @ databaseName) (SchemaData schema)"

definition setTableRelationships ::
  "(cacheData \<Rightarrow> int) \<Rightarrow> SchemaCache \<Rightarrow> string \<Rightarrow> (string \<times> string list) list \<Rightarrow> SchemaCache" where
  "setTableRelationships sizeOf c databaseName relationships =
     cacheSet sizeOf c (''relationships:'' @ databaseName) (RelationshipsData relationships)"

definition setTableInfo ::
  "(cacheData \<Rightarrow> int) \<Rightarrow> SchemaCache \<Rightarrow> string \<Rightarrow> string \<Rightarrow> TableInfo \<Rightarrow> SchemaCache" where
  "setTableInfo sizeOf c databaseName tname tableInfo =
     cacheSet sizeOf c (''table:'' @ databaseName @ '':'' @ tname) (TableData tableInfo)"

definition setTableProfile ::
  "(cacheData \<Rightarrow> int) \<Rightarrow> SchemaCache \<Rightarrow> string \<Rightarrow> string \<Rightarrow> string \<Rightarrow> SchemaCache" where
  "setTableProfile sizeOf c databaseName tname profile =
     cacheSet sizeOf c (''profile:'' @ databaseName @ '':'' @ tname) (ProfileData profile)"

text \<open>
  The analyzer and the profiler, as what their calls answer during one warm-up: a value
  or a thrown error message. \<open>profileTable\<close> may also answer a falsy profile.
\<close>

record Analyzer =
  getDatabaseInfo :: "string + string"
  analyzeFullSchema :: "string + SchemaInfo"
  getTableRelationships :: "string + (string \<times> string list) list"

type_synonym profiler = "string \<Rightarrow> string + string option"

fun warmupTables ::
  "(cacheData \<Rightarrow> int) \<Rightarrow> profiler \<Rightarrow> string \<Rightarrow> SchemaCache \<Rightarrow> TableInfo list \<Rightarrow> SchemaCache" where
  \<comment> \<open>the \<open>for (const table of schema.tables)\<close> loop, with its inner \<open>try\<close>/\<open>catch\<close>\<close>
  "warmupTables sizeOf profileTable databaseName c [] = c"
| "warmupTables sizeOf profileTable databaseName c (t # ts) =
     (let c1 = setTableInfo sizeOf c databaseName (tableName t) t;
          c2 = (if (case tableRowCount t of Some n \<Rightarrow> n | None \<Rightarrow> 0) < 10000
                then (case profileTable (tableName t) of
                        Inl err \<Rightarrow> logMsg LogWarn ''Failed to warm up table profile'' c1
                      | Inr None \<Rightarrow> c1
                      | Inr (Some profile) \<Rightarrow>
                          setTableProfile sizeOf c1 databaseName (tableName t) profile)
                else c1)
      in warmupTables sizeOf profileTable databaseName c2 ts)"

definition tableStep ::
  "(cacheData \<Rightarrow> int) \<Rightarrow> profiler \<Rightarrow> string \<Rightarrow> SchemaCache \<Rightarrow> TableInfo \<Rightarrow> SchemaCache" where
  \<comment> \<open>one turn of that loop: what it makes of the cache for one table\<close>
  "tableStep sizeOf profileTable db c t =
     (if (case tableRowCount t of Some n \<Rightarrow> n | None \<Rightarrow> 0) < 10000
      then (case profileTable (tableName t) of
              Inl err \<Rightarrow> logMsg LogWarn ''Failed to warm up table profile''
                           (setTableInfo sizeOf c db (tableName t) t)
            | Inr None \<Rightarrow> setTableInfo sizeOf c db (tableName t) t
            | Inr (Some profile) \<Rightarrow>
                setTableProfile sizeOf (setTableInfo sizeOf c db (tableName t) t) db
                  (tableName t) profile)
      else setTableInfo sizeOf c db (tableName t) t)"

definition loggedAt :: "logLevel \<Rightarrow> SchemaCache \<Rightarrow> nat" where
  \<comment> \<open>how many records of a level the log holds\<close>
  "loggedAt lvl c = length (filter (\<lambda>e. fst e = lvl) (logged c))"

definition profileFails :: "profiler \<Rightarrow> TableInfo \<Rightarrow> bool" where
  \<comment> \<open>the table is below the profiling limit and its profile throws\<close>
  "profileFails profileTable t \<longleftrightarrow>
     (case tableRowCount t of Some n \<Rightarrow> n | None \<Rightarrow> 0) < 10000 \<and>
     isl (profileTable (tableName t))"

definition profileStored :: "profiler \<Rightarrow> TableInfo \<Rightarrow> bool" where
  \<comment> \<open>the table is below the profiling limit and its profile is returned\<close>
  "profileStored profileTable t \<longleftrightarrow>
     (case tableRowCount t of Some n \<Rightarrow> n | None \<Rightarrow> 0) < 10000 \<and>
     (case profileTable (tableName t) of Inr (Some profile) \<Rightarrow> True | _ \<Rightarrow> False)"

definition warmupFailed :: "SchemaCache \<Rightarrow> string \<Rightarrow> SchemaCache \<times> (string + unit)" where
  \<comment> \<open>the outer \<open>catch\<close>: log, then \<open>throw error\<close>\<close>
  "warmupFailed c err = (logMsg LogError ''Cache warmup failed'' c, Inl err)"

definition warmup ::
  "(cacheData \<Rightarrow> int) \<Rightarrow> SchemaCache \<Rightarrow> string \<Rightarrow> Analyzer \<Rightarrow> profiler
     \<Rightarrow> SchemaCache \<times> (string + unit)" where
  "warmup sizeOf c databaseName analyzer profileTable =
     (let c0 = logMsg LogInfo ''Starting cache warmup'' c in
      case getDatabaseInfo analyzer of
        Inl err \<Rightarrow> warmupFailed c0 err
      | Inr dbInfo \<Rightarrow>
          let c1 = setDatabaseInfo sizeOf c0 databaseName dbInfo in
          case analyzeFullSchema analyzer of
            Inl err \<Rightarrow> warmupFailed c1 err
          | Inr schema \<Rightarrow>
              let c2 = setFullSchema sizeOf c1 databaseName schema in
              case getTableRelationships analyzer of
                Inl err \<Rightarrow> warmupFailed c2 err
              | Inr relationships \<Rightarrow>
                  let c3 = setTableRelationships sizeOf c2 databaseName relationships;
                      c4 = warmupTables sizeOf profileTable databaseName c3 (tables schema)
                  in (logMsg LogInfo ''Cache warmup completed'' c4, Inr ()))"

section \<open>Fixtures\<close>

text \<open>Concrete states and collaborators at which the theorems below are instantiated.\<close>

definition emptyExecutor :: QueryExecutor where
  "emptyExecutor = \<lparr>queryCache = [], auditLogs = [], clock = 0, dbCalls = []\<rparr>"

definition noOptions :: QueryOptions where
  "noOptions = \<lparr>optTimeout = None, optMaxRows = None, optEnableAudit = None, optDryRun = None\<rparr>"

definition threeRows :: "row list" where
  "threeRows = [[(''id'', JNum 1)], [(''id'', JNum 2)], [(''id'', JNum 3)]]"

definition threeRowDatabase :: database where
  "threeRowDatabase query parameters = QueryFirst 5 (Resolved (RowSet threeRows))"


definition slowDatabase :: database where
  "slowDatabase query parameters = TimerFirst 100"

definition okAdapter :: "int \<Rightarrow> nat \<Rightarrow> adapter" where
  "okAdapter t n =
     (\<lambda>sql. Inr \<lparr>rows = replicate n [(''id'', JNum 1)], fieldInfos = [],
                  rowCount = int n, executionTime = t, truncated = None, totalRows = None,
                  metadata = None, cached = None, cacheAge = None, dryRun = None\<rparr>)"

definition failingAdapter :: adapter where
  "failingAdapter = (\<lambda>sql. Inl ''Table does not exist'')"

definition threePools :: ConnectionManager where
  "threePools =
     \<lparr>connections = [(''a'', okAdapter 4 3), (''b'', okAdapter 6 5), (''bad'', failingAdapter)],
      defaultConnectionName = Some ''a''\<rparr>"

definition idleAdapter :: MySQLAdapter where
  "idleAdapter =
     \<lparr>poolOpen = True, isShuttingDown = False, isConnected = True, connectionCount = 10,
      activeQueries = 0, metricsEnabled = True, queriesExecuted = 99,
      totalExecutionTime = 1000, errorCount = 1, emitted = []\<rparr>"

definition idleRun :: AdapterRun where
  "idleRun =
     \<lparr>adapterState = idleAdapter, pendingQueries = [], pendingStatements = 0,
      pendingDisconnects = 0\<rparr>"

definition busyTrace :: "adapterStep list" where
  \<comment> \<open>two queries and a transaction statement overlap; a disconnect is refused by the driver\<close>
  "busyTrace =
     [CallQuery ''SELECT 1'' [], TransactionExecute, CallQuery ''SELECT 2'' [],
      SettleQuery 0 (Executed 3 (RowSet []) []), CallDisconnect,
      TransactionSettle False 7, SettleQuery 0 (ExecuteFailed 4 ''boom''),
      SettleDisconnect False]"

definition emptyCache :: SchemaCache where
  "emptyCache =
     \<lparr>cache = [], defaultTTL = 300000, maxSize = 104857600, maxEntries = 1000, now = 0,
      logged = []\<rparr>"

definition flatSize :: "cacheData \<Rightarrow> int" where
  "flatSize d = 2"

definition noProfile :: profiler where
  "noProfile t = Inr None"

definition flakyProfiler :: profiler where
  "flakyProfiler t = (if t = ''orders'' then Inl ''profile failed'' else Inr (Some ''profile''))"

definition brokenAnalyzer :: Analyzer where
  "brokenAnalyzer =
     \<lparr>getDatabaseInfo = Inl ''connection lost'',
      analyzeFullSchema = Inr \<lparr>tables = []\<rparr>,
      getTableRelationships = Inr []\<rparr>"

definition shopSchema :: SchemaInfo where
  "shopSchema =
     \<lparr>tables = [\<lparr>tableName = ''orders'', tableRowCount = Some 12\<rparr>,
                \<lparr>tableName = ''items'', tableRowCount = None\<rparr>,
                \<lparr>tableName = ''events'', tableRowCount = Some 500000\<rparr>]\<rparr>"

definition shopAnalyzer :: Analyzer where
  "shopAnalyzer =
     \<lparr>getDatabaseInfo = Inr ''shop'',
      analyzeFullSchema = Inr shopSchema,
      getTableRelationships = Inr []\<rparr>"

section \<open>Properties of the query validator\<close>

subsection \<open>Trimming\<close>

lemma trim_sublist: "sublist (trim s) s"
proof -
  have "prefix (rev (dropWhile isWhiteSpace (rev (dropWhile isWhiteSpace s)))) (dropWhile isWhiteSpace s)"
    by (metis suffix_dropWhile suffix_to_prefix rev_rev_ident)
  moreover have "suffix (dropWhile isWhiteSpace s) s"
    by (rule suffix_dropWhile)
  ultimately show ?thesis
    unfolding trim_def by (meson prefix_imp_sublist suffix_imp_sublist sublist_order.order_trans)
qed

lemma trim_fixed:
  assumes "s = [] \<or> (\<not> isWhiteSpace (hd s) \<and> \<not> isWhiteSpace (last s))"
  shows "trim s = s"
proof (cases s)
  case Nil
  then show ?thesis by (simp add: trim_def)
next
  case (Cons c cs)
  with assms have h: "\<not> isWhiteSpace c" and l: "\<not> isWhiteSpace (last s)" by auto
  from h Cons have 1: "dropWhile isWhiteSpace s = s" by simp
  from Cons have "s \<noteq> []" by simp
  then have "hd (rev s) = last s" by (simp add: hd_rev)
  with l have 2: "dropWhile isWhiteSpace (rev s) = rev s"
    by (simp add: dropWhile_eq_self_iff)
  show ?thesis by (simp add: trim_def 1 2)
qed

lemma trim_ends:
  "trim s = [] \<or> (\<not> isWhiteSpace (hd (trim s)) \<and> \<not> isWhiteSpace (last (trim s)))"
proof (cases "trim s = []")
  case True
  then show ?thesis by simp
next
  case False
  let ?t = "dropWhile isWhiteSpace s"
  let ?u = "dropWhile isWhiteSpace (rev ?t)"
  have ts: "trim s = rev ?u" by (simp add: trim_def)
  with False have u: "?u \<noteq> []" by simp
  then have "\<not> isWhiteSpace (hd ?u)" by (rule hd_dropWhile)
  then have l: "\<not> isWhiteSpace (last (trim s))"
    using u by (simp add: ts last_rev)
  have t: "?t \<noteq> []"
  proof
    assume e: "?t = []"
    have "?u = dropWhile isWhiteSpace (rev [])" by (simp only: e)
    with u show False by simp
  qed
  then have ht: "\<not> isWhiteSpace (hd ?t)" by (rule hd_dropWhile)
  have "prefix (rev ?u) ?t"
    by (metis suffix_dropWhile suffix_to_prefix rev_rev_ident)
  then have "hd (rev ?u) = hd ?t"
    using u by (metis hd_append2 prefix_def rev_is_Nil_conv)
  with ht l show ?thesis by (simp add: ts)
qed

lemma trim_idem: "trim (trim s) = trim s"
  using trim_ends[of s] by (rule trim_fixed)

subsection \<open>Whitespace collapsing\<close>

lemma spaced_sublist: "sublist ys xs \<Longrightarrow> spaced xs \<Longrightarrow> spaced ys"
  unfolding spaced_def
  by (meson set_mono_sublist subsetD sublist_order.order_trans)

lemma collapseFrom_head:
  "collapseFrom False xs = c # r \<Longrightarrow> c \<noteq> CHR '' '' \<Longrightarrow> \<exists>ys. xs = c # ys"
  by (cases xs) (auto split: if_splits)

lemma collapseFrom_True_head:
  "collapseFrom True xs = [] \<or> \<not> isWhiteSpace (hd (collapseFrom True xs))"
  by (induction xs) auto

lemma collapseFrom_spaced: "spaced (collapseFrom f xs)"
proof (induction xs arbitrary: f)
  case Nil
  then show ?case by (simp add: spaced_def)
next
  case (Cons c cs)
  show ?case
  proof (cases "isWhiteSpace c")
    case True
    show ?thesis
    proof (cases f)
      case True
      with \<open>isWhiteSpace c\<close> Cons.IH[of True] show ?thesis by simp
    next
      case False
      have "\<not> prefix ''  '' (CHR '' '' # collapseFrom True cs)"
        using collapseFrom_True_head[of cs]
        by (cases "collapseFrom True cs") (auto simp: isWhiteSpace_def)
      with False \<open>isWhiteSpace c\<close> Cons.IH[of True] show ?thesis
        by (simp add: spaced_def sublist_Cons_right)
    qed
  next
    case False
    then have "\<not> prefix ''  '' (c # collapseFrom False cs)"
      by (auto simp: isWhiteSpace_def)
    with False Cons.IH[of False] show ?thesis
      by (simp add: spaced_def sublist_Cons_right)
  qed
qed

lemma spaced_fixed:
  "spaced xs \<Longrightarrow> (f \<longrightarrow> xs = [] \<or> \<not> isWhiteSpace (hd xs)) \<Longrightarrow> collapseFrom f xs = xs"
proof (induction xs arbitrary: f)
  case Nil
  then show ?case by simp
next
  case (Cons c cs)
  from Cons.prems(1) have sp: "spaced cs"
    by (auto simp: spaced_def sublist_Cons_right)
  show ?case
  proof (cases "isWhiteSpace c")
    case True
    with Cons.prems have c: "c = CHR '' ''" and f: "\<not> f"
      by (auto simp: spaced_def)
    from Cons.prems(1) c have "cs = [] \<or> \<not> isWhiteSpace (hd cs)"
      by (cases cs) (auto simp: spaced_def sublist_Cons_right)
    with Cons.IH[OF sp, of True] True c f show ?thesis by simp
  next
    case False
    with Cons.IH[OF sp, of False] show ?thesis by simp
  qed
qed

lemma collapseFrom_no_open:
  "\<not> sublist ''/*'' xs \<Longrightarrow> \<not> sublist ''/*'' (collapseFrom f xs)"
proof (induction xs arbitrary: f)
  case Nil
  then show ?case by simp
next
  case (Cons c cs)
  from Cons.prems have cs: "\<not> sublist ''/*'' cs" and p: "\<not> prefix ''/*'' (c # cs)"
    by (auto simp: sublist_Cons_right)
  show ?case
  proof (cases "isWhiteSpace c")
    case True
    with Cons.IH[OF cs, of True] show ?thesis
      by (auto simp: sublist_Cons_right)
  next
    case False
    have "\<not> prefix ''/*'' (c # collapseFrom False cs)"
    proof
      assume a: "prefix ''/*'' (c # collapseFrom False cs)"
      then obtain r where "c = CHR ''/''" "collapseFrom False cs = CHR ''*'' # r"
        by (cases "collapseFrom False cs") auto
      then show False
        using p collapseFrom_head[of cs "CHR ''*''" r] by auto
    qed
    with False Cons.IH[OF cs, of False] show ?thesis
      by (simp add: sublist_Cons_right)
  qed
qed

lemma length_collapseFrom: "length (collapseFrom f xs) \<le> length xs"
  by (induction xs arbitrary: f) (auto simp: le_SucI)

subsection \<open>Comment stripping\<close>

lemma stripLineFrom_True_noLT:
  "\<forall>c \<in> set xs. \<not> isLineTerminator c \<Longrightarrow> stripLineFrom True xs = []"
  by (induction xs) auto

lemma stripLineFrom_prefix:
  "\<forall>c \<in> set xs. \<not> isLineTerminator c \<Longrightarrow> prefix (stripLineFrom False xs) xs"
  by (induction xs) (auto simp: stripLineFrom_True_noLT)

lemma stripLineFrom_no_dashes:
  "\<forall>c \<in> set xs. \<not> isLineTerminator c \<Longrightarrow> \<not> sublist ''--'' (stripLineFrom False xs)"
proof (induction xs)
  case Nil
  then show ?case by simp
next
  case (Cons c cs)
  then have IH: "\<not> sublist ''--'' (stripLineFrom False cs)" and nl: "\<forall>c \<in> set cs. \<not> isLineTerminator c"
    by auto
  show ?case
  proof (cases "c = CHR ''-'' \<and> prefix ''-'' cs")
    case True
    then show ?thesis using nl by (simp add: stripLineFrom_True_noLT)
  next
    case False
    have "\<not> prefix ''--'' (c # stripLineFrom False cs)"
    proof
      assume "prefix ''--'' (c # stripLineFrom False cs)"
      then have c: "c = CHR ''-''" and "prefix ''-'' (stripLineFrom False cs)" by auto
      then have "prefix ''-'' cs"
        using stripLineFrom_prefix[OF nl] by (meson prefix_order.order_trans)
      with c False show False by simp
    qed
    with False IH show ?thesis by (auto simp: sublist_Cons_right)
  qed
qed

lemma stripLineFrom_fixed:
  "\<not> sublist ''--'' xs \<Longrightarrow> stripLineFrom False xs = xs"
  by (induction xs) (auto simp: sublist_Cons_right)

lemma length_stripLineFrom: "length (stripLineFrom f xs) \<le> length xs"
  by (induction f xs rule: stripLineFrom.induct) (auto simp: le_SucI)

lemma stripBlockComments_fixed:
  "\<not> sublist ''/*'' xs \<Longrightarrow> stripBlockComments xs = xs"
  by (induction xs) (auto simp: sublist_Cons_right)

lemma spaced_noLT: "spaced xs \<Longrightarrow> \<forall>c \<in> set xs. \<not> isLineTerminator c"
  by (auto simp: spaced_def isLineTerminator_def isWhiteSpace_def)

lemma normalizeQuery_idem:
  assumes "\<not> sublist ''/*'' q"
  shows "normalizeQuery (normalizeQuery q) = normalizeQuery q"
proof -
  define a where "a = trim q"
  define b where "b = collapseFrom False a"
  define c where "c = stripLineFrom False b"
  define s where "s = trim c"
  have a: "\<not> sublist ''/*'' a"
    using assms trim_sublist[of q] unfolding a_def by (meson sublist_order.order_trans)
  have b: "\<not> sublist ''/*'' b" "spaced b"
    unfolding b_def using a by (simp_all add: collapseFrom_no_open collapseFrom_spaced)
  have cb: "sublist c b"
    unfolding c_def using stripLineFrom_prefix[OF spaced_noLT[OF b(2)]] by (rule prefix_imp_sublist)
  have c1: "\<not> sublist ''/*'' c"
    using cb b(1) by (meson sublist_order.order_trans)
  have c2: "spaced c"
    using cb b(2) by (rule spaced_sublist)
  have c3: "\<not> sublist ''--'' c"
    unfolding c_def using stripLineFrom_no_dashes[OF spaced_noLT[OF b(2)]] by simp
  note c = c1 c2 c3
  have sc: "sublist s c" unfolding s_def by (rule trim_sublist)
  have s: "\<not> sublist ''/*'' s" "spaced s" "\<not> sublist ''--'' s"
    using sc c by (meson sublist_order.order_trans spaced_sublist)+
  have n: "normalizeQuery q = s"
    by (simp add: normalizeQuery_def collapseWhitespace_def stripLineComments_def
          a_def b_def c_def s_def stripBlockComments_fixed[OF c(1)[unfolded c_def b_def a_def]])
  have t: "trim s = s" unfolding s_def by (rule trim_idem)
  have "normalizeQuery s = s"
    by (simp add: normalizeQuery_def collapseWhitespace_def stripLineComments_def t
          spaced_fixed[OF s(2)] stripLineFrom_fixed[OF s(3)] stripBlockComments_fixed[OF s(1)])
  then show ?thesis by (simp add: n)
qed

lemma length_findBlockEnd: "findBlockEnd xs = Some ys \<Longrightarrow> length ys < length xs"
  by (induction xs rule: findBlockEnd.induct) (auto split: if_splits)

lemma length_stripBlockComments: "length (stripBlockComments xs) \<le> length xs"
proof (induction xs rule: stripBlockComments.induct)
  case 1
  then show ?case by simp
next
  case (2 c cs)
  show ?case
  proof (cases "c = CHR ''/'' \<and> prefix ''*'' cs")
    case True
    show ?thesis
    proof (cases "findBlockEnd (tl cs)")
      case None
      with True 2 show ?thesis by simp
    next
      case (Some rest)
      with True 2 have "length (stripBlockComments rest) \<le> length rest" by simp
      moreover have "length rest < length (tl cs)" using Some by (rule length_findBlockEnd)
      ultimately show ?thesis using True Some by simp
    qed
  next
    case False
    with 2 show ?thesis by auto
  qed
qed

lemma length_trim: "length (trim s) \<le> length s"
  using trim_sublist by (rule sublist_length_le)

lemma length_normalizeQuery: "length (normalizeQuery q) \<le> length q"
proof -
  have "length (normalizeQuery q) \<le> length (stripBlockComments (stripLineFrom False (collapseFrom False (trim q))))"
    unfolding normalizeQuery_def collapseWhitespace_def stripLineComments_def by (rule length_trim)
  also have "\<dots> \<le> length (stripLineFrom False (collapseFrom False (trim q)))"
    by (rule length_stripBlockComments)
  also have "\<dots> \<le> length (collapseFrom False (trim q))"
    by (rule length_stripLineFrom)
  also have "\<dots> \<le> length (trim q)"
    by (rule length_collapseFrom)
  also have "\<dots> \<le> length q"
    by (rule length_trim)
  finally show ?thesis .
qed

lemma normalizeQuery_trimmed: "trim (normalizeQuery q) = normalizeQuery q"
  unfolding normalizeQuery_def by (rule trim_idem)

subsection \<open>Normalization and a second validation\<close>

lemma validate_passes_basic:
  "isValid (validate cfg q) \<Longrightarrow>
     q \<noteq> [] \<and> \<not> int (length q) > maxQueryLength cfg \<and> trim q \<noteq> []"
  by (auto simp: validate_def validateBasicInput_def reject_def Let_def split: if_splits)

lemma validate_of_basic:
  "q \<noteq> [] \<Longrightarrow> \<not> int (length q) > maxQueryLength cfg \<Longrightarrow> trim q \<noteq> [] \<Longrightarrow>
     validate cfg q =
       (performAdvancedValidation (normalizeQuery q)
          (checkSuspiciousPatterns (normalizeQuery q)
             (checkForbiddenKeywords cfg (normalizeQuery q)
                \<lparr>isValid = True, errors = [], sanitizedQuery = None\<rparr>)))
       \<lparr>sanitizedQuery := Some (normalizeQuery q)\<rparr>"
  by (simp add: validate_def validateBasicInput_def Let_def)

text \<open>
  C8, as stated, fails: whitespace is collapsed before the comments are stripped, so
  removing a block comment between two spaces leaves two spaces in the sanitized
  query, which a second validation collapses. (A query that is only a comment is also
  accepted, with an empty sanitized query that a second validation rejects.)
\<close>

theorem validate_sanitized_fixed_point_counterexample:
  "isValid (validate defaultSecurityConfig ''SELECT 1 /* a */ FROM t'') \<and>
   sanitizedQuery (validate defaultSecurityConfig ''SELECT 1 /* a */ FROM t'') =
     Some ''SELECT 1  FROM t'' \<and>
   sanitizedQuery (validate defaultSecurityConfig ''SELECT 1  FROM t'') =
     Some ''SELECT 1 FROM t''"
  by code_simp

text \<open>
  C8, amended: for every accepted query that contains no block-comment opener \<open>/*\<close>
  and whose sanitized query is not empty, validating the sanitized query again gives
  the same sanitized query; the second validation even returns the same result as the
  first.
\<close>

theorem validate_sanitized_fixed_point:
  assumes "isValid (validate cfg query)"
    and "\<not> strIncludes query ''/*''"
    and "sanitizedQuery (validate cfg query) = Some s"
    and "s \<noteq> []"
  shows "sanitizedQuery (validate cfg s) = Some s \<and> validate cfg s = validate cfg query"
proof -
  note basic = validate_passes_basic[OF assms(1)]
  have v: "validate cfg query =
       (performAdvancedValidation (normalizeQuery query)
          (checkSuspiciousPatterns (normalizeQuery query)
             (checkForbiddenKeywords cfg (normalizeQuery query)
                \<lparr>isValid = True, errors = [], sanitizedQuery = None\<rparr>)))
       \<lparr>sanitizedQuery := Some (normalizeQuery query)\<rparr>"
    using basic by (intro validate_of_basic) simp_all
  from assms(3) have s: "s = normalizeQuery query"
    by (simp add: v)
  have len: "\<not> int (length s) > maxQueryLength cfg"
    using basic length_normalizeQuery[of query] by (simp add: s)
  have tr: "trim s \<noteq> []"
    using assms(4) by (simp add: s normalizeQuery_trimmed)
  have n: "normalizeQuery s = s"
    using assms(2) by (simp add: s strIncludes_def normalizeQuery_idem)
  have "validate cfg s =
       (performAdvancedValidation (normalizeQuery s)
          (checkSuspiciousPatterns (normalizeQuery s)
             (checkForbiddenKeywords cfg (normalizeQuery s)
                \<lparr>isValid = True, errors = [], sanitizedQuery = None\<rparr>)))
       \<lparr>sanitizedQuery := Some (normalizeQuery s)\<rparr>"
    by (rule validate_of_basic[OF assms(4) len tr])
  also have "\<dots> =
       (performAdvancedValidation (normalizeQuery query)
          (checkSuspiciousPatterns (normalizeQuery query)
             (checkForbiddenKeywords cfg (normalizeQuery query)
                \<lparr>isValid = True, errors = [], sanitizedQuery = None\<rparr>)))
       \<lparr>sanitizedQuery := Some (normalizeQuery query)\<rparr>"
    unfolding n unfolding s ..
  also have "\<dots> = validate cfg query"
    by (rule v[symmetric])
  finally have "validate cfg s = validate cfg query" .
  with assms(3) show ?thesis by simp
qed

theorem validate_sanitized_fixed_point_witness:
  "sanitizedQuery (validate defaultSecurityConfig ''select a, b from t'') =
     Some ''select a, b from t''"
proof -
  have v: "isValid (validate defaultSecurityConfig
                      (''  select a,'' @ [CHR 0x0A] @ ''   b from t -- done''))"
    by code_simp
  have n: "\<not> strIncludes (''  select a,'' @ [CHR 0x0A] @ ''   b from t -- done'') ''/*''"
    by code_simp
  have s: "sanitizedQuery (validate defaultSecurityConfig
                             (''  select a,'' @ [CHR 0x0A] @ ''   b from t -- done'')) =
             Some ''select a, b from t''"
    by code_simp
  have ne: "''select a, b from t'' \<noteq> []"
    by simp
  show ?thesis
    using validate_sanitized_fixed_point[OF v n s ne] by (rule conjunct1)
qed

subsection \<open>The quote pattern\<close>

lemma checkSuspiciousPatterns_fold:
  "checkSuspiciousPatterns query result =
     foldl (\<lambda>r p. if snd p query then reject (''Suspicious pattern detected: '' @ fst p) r else r)
       result suspiciousPatterns"
  unfolding checkSuspiciousPatterns_def
  by (rule arg_cong[where f = "\<lambda>f. foldl f result suspiciousPatterns"])
     (auto simp: fun_eq_iff split: prod.splits)

lemma isValid_reject_foldl:
  "isValid (foldl (\<lambda>r x. if P x then reject (m x) r else r) r0 xs) \<longleftrightarrow>
     isValid r0 \<and> (\<forall>x \<in> set xs. \<not> P x)"
  by (induction xs arbitrary: r0) (auto simp: reject_def)

lemma errors_reject_foldl:
  "errors (foldl (\<lambda>r x. if P x then reject (m x) r else r) r0 xs) =
     errors r0 @ map m (filter P xs)"
  by (induction xs arbitrary: r0) (auto simp: reject_def)

lemma quote_pattern_listed:
  "(''('|('' @ [CHR 0x5C] @ ''x27)|('' @ [CHR 0x5C] @ ''x2D'' @ [CHR 0x5C] @ ''x2D)|(%27)|(%2D%2D))'',
    \<lambda>s. testCI [CHR 0x27] s \<or> testCI ''--'' s \<or> testCI ''%27'' s \<or> testCI ''%2d%2d'' s)
   \<in> set suspiciousPatterns"
  unfolding suspiciousPatterns_def by (rule list.set_intros(1))

lemma of_char_quote: "(of_char (CHR 0x27) :: nat) = 39"
  by simp

lemma toLowerChar_quote: "toLowerChar c = CHR 0x27 \<longleftrightarrow> c = CHR 0x27"
proof
  assume c: "c = CHR 0x27"
  have "toLowerChar (CHR 0x27) = CHR 0x27"
    unfolding toLowerChar_def Let_def of_char_quote by simp
  then show "toLowerChar c = CHR 0x27" using c by (simp only:)
next
  assume a: "toLowerChar c = CHR 0x27"
  define n where "n = (of_char c :: nat)"
  have shifted: False if "toLowerChar c = char_of (n + 32)" and "65 \<le> n" and "n \<le> 222"
  proof -
    from a that(1) have "char_of (n + 32) = CHR 0x27" by (simp only:)
    then have "(of_char (char_of (n + 32)) :: nat) = of_char (CHR 0x27)"
      by (simp only:)
    then have "(n + 32) mod 256 = 39"
      unfolding of_char_of of_char_quote .
    moreover from that(3) have "n + 32 < 256" by simp
    then have "(n + 32) mod 256 = n + 32" by (rule mod_less)
    ultimately have "n + 32 = 39" by (simp only:)
    with that(2) show False by simp
  qed
  show "c = CHR 0x27"
  proof (cases "65 \<le> n \<and> n \<le> 90")
    case True
    then have "toLowerChar c = char_of (n + 32)"
      unfolding toLowerChar_def Let_def n_def by (rule if_P)
    with True shifted have False by simp
    then show ?thesis ..
  next
    case False
    note ascii = this
    show ?thesis
    proof (cases "192 \<le> n \<and> n \<le> 222 \<and> n \<noteq> 215")
      case True
      have "toLowerChar c = (if 192 \<le> n \<and> n \<le> 222 \<and> n \<noteq> 215 then char_of (n + 32) else c)"
        unfolding toLowerChar_def Let_def n_def using ascii[unfolded n_def] by (rule if_not_P)
      also have "\<dots> = char_of (n + 32)" using True by (rule if_P)
      finally have "toLowerChar c = char_of (n + 32)" .
      with True shifted have False by simp
      then show ?thesis ..
    next
      case False
      have "toLowerChar c = (if 192 \<le> n \<and> n \<le> 222 \<and> n \<noteq> 215 then char_of (n + 32) else c)"
        unfolding toLowerChar_def Let_def n_def using ascii[unfolded n_def] by (rule if_not_P)
      also have "\<dots> = c" using False by (rule if_not_P)
      finally have "toLowerChar c = c" .
      with a show ?thesis by (simp only:)
    qed
  qed
qed

lemma quote_in_lower: "x \<in> toLowerChar ` A \<longleftrightarrow> x \<in> A" if "x = CHR 0x27"
proof
  assume "x \<in> toLowerChar ` A"
  then obtain c where "c \<in> A" "x = toLowerChar c" by (rule imageE)
  then show "x \<in> A" using that toLowerChar_quote by metis
next
  assume "x \<in> A"
  moreover have "toLowerChar x = x" using that toLowerChar_quote by metis
  ultimately show "x \<in> toLowerChar ` A" by (metis imageI)
qed

lemma testCI_quote: "testCI [CHR 0x27] s \<longleftrightarrow> CHR 0x27 \<in> set s"
proof -
  have "sublist [x] xs \<longleftrightarrow> x \<in> set xs" for x :: char and xs
    by (induction xs) (auto simp: sublist_Cons_right)
  then have "testCI [CHR 0x27] s \<longleftrightarrow> CHR 0x27 \<in> toLowerChar ` set s"
    by (simp add: testCI_def strIncludes_def toLowerCase_def)
  also have "\<dots> \<longleftrightarrow> CHR 0x27 \<in> set s"
    by (rule quote_in_lower) (rule refl)
  finally show ?thesis .
qed

lemma isValid_performAdvancedValidation:
  "isValid (performAdvancedValidation q r) = isValid r"
  by (simp add: performAdvancedValidation_def)

lemma errors_performAdvancedValidation:
  "set (errors r) \<subseteq> set (errors (performAdvancedValidation q r))"
  by (auto simp: performAdvancedValidation_def)

lemma validate_unfold:
  assumes "isValid (validateBasicInput cfg query \<lparr>isValid = True, errors = [], sanitizedQuery = None\<rparr>)"
  shows "validate cfg query =
     (performAdvancedValidation (normalizeQuery query)
        (checkSuspiciousPatterns (normalizeQuery query)
           (checkForbiddenKeywords cfg (normalizeQuery query)
              (validateBasicInput cfg query \<lparr>isValid = True, errors = [], sanitizedQuery = None\<rparr>))))
     \<lparr>sanitizedQuery := Some (normalizeQuery query)\<rparr>"
  using assms by (simp add: validate_def Let_def)

lemma validate_basic_invalid:
  assumes "\<not> isValid (validateBasicInput cfg query \<lparr>isValid = True, errors = [], sanitizedQuery = None\<rparr>)"
  shows "\<not> isValid (validate cfg query)"
  using assms by (simp add: validate_def Let_def)

lemma checkSuspiciousPatterns_hit:
  assumes "(src, tst) \<in> set suspiciousPatterns" and "tst q"
  shows "\<not> isValid (checkSuspiciousPatterns q r) \<and>
         (''Suspicious pattern detected: '' @ src) \<in> set (errors (checkSuspiciousPatterns q r))"
proof -
  have 1: "\<exists>x \<in> set suspiciousPatterns. snd x q"
    using assms by force
  have 2: "(src, tst) \<in> set (filter (\<lambda>x. snd x q) suspiciousPatterns)"
    using assms by simp
  have "(\<lambda>p. ''Suspicious pattern detected: '' @ fst p) (src, tst)
          \<in> (\<lambda>p. ''Suspicious pattern detected: '' @ fst p) ` set (filter (\<lambda>x. snd x q) suspiciousPatterns)"
    using 2 by (rule imageI)
  then have 3: "(''Suspicious pattern detected: '' @ src)
          \<in> set (map (\<lambda>p. ''Suspicious pattern detected: '' @ fst p) (filter (\<lambda>x. snd x q) suspiciousPatterns))"
    by simp
  show ?thesis
    unfolding checkSuspiciousPatterns_fold isValid_reject_foldl errors_reject_foldl
    using 1 3 by simp
qed

text \<open>
  C10, as stated, fails: the patterns are tested on the normalized query, so a quote
  that normalization removes with a comment does not reject the query. Because
  whitespace is collapsed first, a line comment runs to the end of the whole query:
  here the string literal on the second line disappears and the query is admitted.
\<close>

theorem validate_quote_in_comment_counterexample:
  "CHR 0x27 \<in> set (''SELECT id --'' @ [CHR 0x0A] @ ''FROM t WHERE name = 'bob' LIMIT 5'') \<and>
   isValid (validate defaultSecurityConfig
              (''SELECT id --'' @ [CHR 0x0A] @ ''FROM t WHERE name = 'bob' LIMIT 5''))"
  by code_simp

lemma nonws_dropWhile:
  "x \<in> set xs \<Longrightarrow> \<not> isWhiteSpace x \<Longrightarrow> x \<in> set (dropWhile isWhiteSpace xs)"
  by (induction xs) auto

lemma nonws_trim: "x \<in> set s \<Longrightarrow> \<not> isWhiteSpace x \<Longrightarrow> x \<in> set (trim s)"
proof -
  assume x: "x \<in> set s" and n: "\<not> isWhiteSpace x"
  from x n have "x \<in> set (dropWhile isWhiteSpace s)" by (rule nonws_dropWhile)
  then have "x \<in> set (rev (dropWhile isWhiteSpace s))" by simp
  then have "x \<in> set (dropWhile isWhiteSpace (rev (dropWhile isWhiteSpace s)))"
    using n by (rule nonws_dropWhile)
  then show ?thesis by (simp add: trim_def)
qed

lemma nonws_collapseFrom:
  "x \<in> set xs \<Longrightarrow> \<not> isWhiteSpace x \<Longrightarrow> x \<in> set (collapseFrom f xs)"
  by (induction xs arbitrary: f) auto

lemma collapseFrom_no_dashes:
  "\<not> sublist ''--'' xs \<Longrightarrow> \<not> sublist ''--'' (collapseFrom f xs)"
proof (induction xs arbitrary: f)
  case Nil
  then show ?case by simp
next
  case (Cons c cs)
  from Cons.prems have cs: "\<not> sublist ''--'' cs" and p: "\<not> prefix ''--'' (c # cs)"
    by (auto simp: sublist_Cons_right)
  show ?case
  proof (cases "isWhiteSpace c")
    case True
    with Cons.IH[OF cs, of True] show ?thesis
      by (auto simp: sublist_Cons_right)
  next
    case False
    have "\<not> prefix ''--'' (c # collapseFrom False cs)"
    proof
      assume a: "prefix ''--'' (c # collapseFrom False cs)"
      then obtain r where "c = CHR ''-''" "collapseFrom False cs = CHR ''-'' # r"
        by (cases "collapseFrom False cs") auto
      then show False
        using p collapseFrom_head[of cs "CHR ''-''" r] by auto
    qed
    with False Cons.IH[OF cs, of False] show ?thesis
      by (simp add: sublist_Cons_right)
  qed
qed

lemma quote_survives_normalizeQuery:
  assumes "CHR 0x27 \<in> set q" and "\<not> sublist ''--'' q" and "\<not> sublist ''/*'' q"
  shows "CHR 0x27 \<in> set (normalizeQuery q)"
proof -
  define a where "a = trim q"
  define b where "b = collapseFrom False a"
  have nw: "\<not> isWhiteSpace (CHR 0x27)"
    by (simp add: isWhiteSpace_def)
  have a: "\<not> sublist ''--'' a" "\<not> sublist ''/*'' a"
    using assms(2,3) trim_sublist[of q] unfolding a_def by (meson sublist_order.order_trans)+
  have b: "\<not> sublist ''--'' b" "\<not> sublist ''/*'' b"
    unfolding b_def using a by (simp_all add: collapseFrom_no_dashes collapseFrom_no_open)
  have n: "normalizeQuery q = trim b"
    by (simp add: normalizeQuery_def collapseWhitespace_def stripLineComments_def
          stripLineFrom_fixed[OF b(1)[unfolded b_def a_def]]
          stripBlockComments_fixed[OF b(2)[unfolded b_def a_def]] a_def b_def)
  have "CHR 0x27 \<in> set a"
    unfolding a_def using assms(1) nw by (rule nonws_trim)
  then have "CHR 0x27 \<in> set b"
    unfolding b_def using nw by (rule nonws_collapseFrom)
  then have "CHR 0x27 \<in> set (trim b)"
    using nw by (rule nonws_trim)
  then show ?thesis by (simp only: n)
qed

lemma normalized_quote_rejected:
  assumes "CHR 0x27 \<in> set (normalizeQuery query)"
  shows "\<not> isValid (validate cfg query) \<and>
         (isValid (validateBasicInput cfg query \<lparr>isValid = True, errors = [], sanitizedQuery = None\<rparr>) \<longrightarrow>
          (''Suspicious pattern detected: ('|('' @ [CHR 0x5C] @ ''x27)|('' @ [CHR 0x5C] @ ''x2D'' @
             [CHR 0x5C] @ ''x2D)|(%27)|(%2D%2D))'') \<in> set (errors (validate cfg query)))"
proof (cases "isValid (validateBasicInput cfg query \<lparr>isValid = True, errors = [], sanitizedQuery = None\<rparr>)")
  case False
  then show ?thesis using validate_basic_invalid by blast
next
  case True
  define src where "src = ''('|('' @ [CHR 0x5C] @ ''x27)|('' @ [CHR 0x5C] @ ''x2D'' @ [CHR 0x5C] @ ''x2D)|(%27)|(%2D%2D))''"
  define tst where "tst = (\<lambda>s. testCI [CHR 0x27] s \<or> testCI ''--'' s \<or> testCI ''%27'' s \<or> testCI ''%2d%2d'' s)"
  define r1 where "r1 = checkForbiddenKeywords cfg (normalizeQuery query)
              (validateBasicInput cfg query \<lparr>isValid = True, errors = [], sanitizedQuery = None\<rparr>)"
  define r2 where "r2 = checkSuspiciousPatterns (normalizeQuery query) r1"
  have p: "(src, tst) \<in> set suspiciousPatterns"
    unfolding src_def tst_def by (rule quote_pattern_listed)
  have t: "tst (normalizeQuery query)"
    unfolding tst_def using assms by (simp only: testCI_quote simp_thms)
  from checkSuspiciousPatterns_hit[OF p t, of r1]
  have r2: "\<not> isValid r2" "(''Suspicious pattern detected: '' @ src) \<in> set (errors r2)"
    unfolding r2_def by simp_all
  have v: "validate cfg query =
     (performAdvancedValidation (normalizeQuery query) r2)\<lparr>sanitizedQuery := Some (normalizeQuery query)\<rparr>"
    unfolding r2_def r1_def using True by (rule validate_unfold)
  have i: "\<not> isValid (validate cfg query)"
    using r2(1) by (simp add: v isValid_performAdvancedValidation)
  have "(''Suspicious pattern detected: '' @ src) \<in> set (errors (performAdvancedValidation (normalizeQuery query) r2))"
    using r2(2) errors_performAdvancedValidation by blast
  then have e: "(''Suspicious pattern detected: '' @ src) \<in> set (errors (validate cfg query))"
    by (simp add: v)
  have m: "''Suspicious pattern detected: '' @ src =
      ''Suspicious pattern detected: ('|('' @ [CHR 0x5C] @ ''x27)|('' @ [CHR 0x5C] @ ''x2D'' @
             [CHR 0x5C] @ ''x2D)|(%27)|(%2D%2D))''"
    unfolding src_def by simp
  show ?thesis using i e unfolding m by blast
qed

text \<open>
  C10, amended: every query whose normalized form still contains a single quote is
  rejected; when it passes the basic input checks, the rejection comes from the
  suspicious-pattern check, whose message for the quote pattern is among the errors.
  In particular every input that contains a quote and no comment marker (\<open>--\<close> or
  \<open>/*\<close>) is rejected, so no query is admitted whose sanitized form contains a string
  literal.
\<close>

theorem validate_quote_rejected:
  "(CHR 0x27 \<in> set (normalizeQuery query) \<longrightarrow>
      \<not> isValid (validate cfg query) \<and>
      (isValid (validateBasicInput cfg query \<lparr>isValid = True, errors = [], sanitizedQuery = None\<rparr>) \<longrightarrow>
       (''Suspicious pattern detected: ('|('' @ [CHR 0x5C] @ ''x27)|('' @ [CHR 0x5C] @ ''x2D'' @
          [CHR 0x5C] @ ''x2D)|(%27)|(%2D%2D))'') \<in> set (errors (validate cfg query)))) \<and>
   (CHR 0x27 \<in> set query \<and> \<not> strIncludes query ''--'' \<and> \<not> strIncludes query ''/*'' \<longrightarrow>
      \<not> isValid (validate cfg query))"
  using normalized_quote_rejected[of query cfg] quote_survives_normalizeQuery[of query]
  unfolding strIncludes_def by blast

theorem validate_quote_rejected_witness:
  "\<not> isValid (validate defaultSecurityConfig ''SELECT id FROM t WHERE name = 'bob' LIMIT 5'')"
proof -
  have "CHR 0x27 \<in> set ''SELECT id FROM t WHERE name = 'bob' LIMIT 5'' \<and>
        \<not> strIncludes ''SELECT id FROM t WHERE name = 'bob' LIMIT 5'' ''--'' \<and>
        \<not> strIncludes ''SELECT id FROM t WHERE name = 'bob' LIMIT 5'' ''/*''"
    by code_simp
  with validate_quote_rejected[of "''SELECT id FROM t WHERE name = 'bob' LIMIT 5''"
         defaultSecurityConfig]
  show ?thesis by blast
qed

section \<open>Properties of the query executor\<close>

lemma validate_sanitized:
  "isValid (validate cfg query) \<Longrightarrow> sanitizedQuery (validate cfg query) = Some (normalizeQuery query)"
  by (auto simp: validate_def Let_def split: if_splits)

text \<open>
  C1: when the validator rejects the query, \<open>executeQuery\<close> fails, its message carries
  the validator's errors joined by \<open>", "\<close>, no \<open>database.query\<close> call is made, and
  the query cache is left as it was.
\<close>

theorem executeQuery_rejected:
  assumes "\<not> isValid (validate cfg query)"
  shows "snd (executeQuery cfg db st query parameters options) =
           Inl (''Query execution failed: Query validation failed: '' @
                joinWith '', '' (errors (validate cfg query))) \<and>
         dbCalls (fst (executeQuery cfg db st query parameters options)) = dbCalls st \<and>
         queryCache (fst (executeQuery cfg db st query parameters options)) = queryCache st"
  using assms by (simp add: executeQuery_def executeQueryFailed_def logAudit_def Let_def)

theorem executeQuery_rejected_witness:
  "snd (executeQuery defaultSecurityConfig threeRowDatabase
          emptyExecutor ''DELETE FROM users'' [] noOptions) =
     Inl ''Query execution failed: Query validation failed: Forbidden keyword detected: DELETE, Operation 'DELETE' is not allowed. Only read-only operations are permitted., DELETE/UPDATE without WHERE clause is not allowed'' \<and>
   dbCalls (fst (executeQuery defaultSecurityConfig
                   threeRowDatabase
                   emptyExecutor ''DELETE FROM users'' [] noOptions)) = []"
proof -
  have h: "\<not> isValid (validate defaultSecurityConfig ''DELETE FROM users'')"
    by code_simp
  have e: "errors (validate defaultSecurityConfig ''DELETE FROM users'') =
     [''Forbidden keyword detected: DELETE'',
      ''Operation 'DELETE' is not allowed. Only read-only operations are permitted.'',
      ''DELETE/UPDATE without WHERE clause is not allowed'']"
    by code_simp
  show ?thesis
    using executeQuery_rejected[OF h, of threeRowDatabase
            emptyExecutor "[]" noOptions] e
    by (simp add: emptyExecutor_def)
qed

lemma executeQuery_dispatch:
  assumes "isValid (validate cfg query)"
    and "optDryRun options \<noteq> Some True"
    and "snd (getCachedResult st (generateCacheKey query parameters)) = None"
  shows "executeQuery cfg db st query parameters options =
     (case executeWithTimeout db (fst (getCachedResult st (generateCacheKey query parameters)))
             (normalizeQuery query) parameters
             (orDefault (optTimeout options) (maxExecutionTime cfg))
             (orDefault (optMaxRows options) (maxResultRows cfg)) of
        (st2, Inl errorMessage) \<Rightarrow> executeQueryFailed st2 (clock st) query options errorMessage
      | (st2, Inr result) \<Rightarrow>
          (let st3 = (if shouldCacheQuery query
                      then cacheResult st2 (generateCacheKey query parameters) result else st2);
               st4 = (if optEnableAudit options \<noteq> Some False
                      then logAudit st3 query (executionTime result) (rowCount result) True None
                      else st3)
           in (st4, Inr result)))"
  using assms validate_sanitized[OF assms(1)]
  by (cases "getCachedResult st (generateCacheKey query parameters)")
     (auto simp: executeQuery_def Let_def)




text \<open>
  C6, as stated, fails: the timeout error is not propagated verbatim. The \<open>catch\<close> block
  of \<open>executeQuery\<close> wraps every error message, so the caller sees
  \<open>Query execution failed: Query timeout after 100ms\<close>.
\<close>

theorem executeQuery_timeout_counterexample:
  "snd (executeQuery defaultSecurityConfig slowDatabase emptyExecutor ''SELECT 1'' []
          (noOptions\<lparr>optTimeout := Some 100\<rparr>)) \<noteq> Inl ''Query timeout after 100ms''"
  by code_simp

text \<open>
  C6, amended: when the timer wins the race, \<open>executeWithTimeout\<close> fails with exactly
  \<open>Query timeout after <t>ms\<close>, and \<open>executeQuery\<close> fails with that message behind
  the prefix \<open>Query execution failed: \<close>, where \<open>t\<close> is the effective timeout.
\<close>

theorem executeQuery_timeout:
  assumes "isValid (validate cfg query)"
    and "optDryRun options \<noteq> Some True"
    and "snd (getCachedResult st (generateCacheKey query parameters)) = None"
    and "db (normalizeQuery query) parameters = TimerFirst elapsed"
    and "t = orDefault (optTimeout options) (maxExecutionTime cfg)"
  shows "snd (executeQuery cfg db st query parameters options) =
           Inl (''Query execution failed: Query timeout after '' @ showInt t @ ''ms'') \<and>
         snd (executeWithTimeout db st' (normalizeQuery query) parameters t m) =
           Inl (''Query timeout after '' @ showInt t @ ''ms'')"
proof -
  define st1 where "st1 = fst (getCachedResult st (generateCacheKey query parameters))"
  have e: "executeQuery cfg db st query parameters options =
     (case executeWithTimeout db st1 (normalizeQuery query) parameters t
             (orDefault (optMaxRows options) (maxResultRows cfg)) of
        (st2, Inl errorMessage) \<Rightarrow> executeQueryFailed st2 (clock st) query options errorMessage
      | (st2, Inr result) \<Rightarrow>
          (let st3 = (if shouldCacheQuery query
                      then cacheResult st2 (generateCacheKey query parameters) result else st2);
               st4 = (if optEnableAudit options \<noteq> Some False
                      then logAudit st3 query (executionTime result) (rowCount result) True None
                      else st3)
           in (st4, Inr result)))"
    using executeQuery_dispatch[OF assms(1-3)] assms(5) st1_def by simp
  show ?thesis
    using assms(4)
    by (simp add: e executeWithTimeout_def executeQueryFailed_def Let_def)
qed

theorem executeQuery_timeout_witness:
  "snd (executeQuery defaultSecurityConfig slowDatabase emptyExecutor ''SELECT 1'' []
          (noOptions\<lparr>optTimeout := Some 100\<rparr>)) =
     Inl ''Query execution failed: Query timeout after 100ms'' \<and>
   snd (executeWithTimeout slowDatabase emptyExecutor ''SELECT 1'' [] 100 10000) =
     Inl ''Query timeout after 100ms''"
proof -
  have v: "isValid (validate defaultSecurityConfig ''SELECT 1'')"
    by code_simp
  have n: "normalizeQuery ''SELECT 1'' = ''SELECT 1''"
    by code_simp
  have s: "showInt 100 = ''100''"
    by code_simp
  have miss: "snd (getCachedResult emptyExecutor (generateCacheKey ''SELECT 1'' [])) = None"
    by (simp add: getCachedResult_def emptyExecutor_def)
  show ?thesis
    using executeQuery_timeout[OF v _ miss, of "noOptions\<lparr>optTimeout := Some 100\<rparr>"
            slowDatabase 100 100 emptyExecutor 10000]
    by (simp add: noOptions_def orDefault_def slowDatabase_def n s)
qed

section \<open>Properties of the MySQL adapter\<close>

subsection \<open>The counter of active queries\<close>

lemma activeQueries_querySettle:
  "activeQueries (fst (querySettle outcome sql params a)) = activeQueries a - 1"
  by (cases outcome) (auto simp: querySettle_def updateMetrics_def Let_def)

lemma activeQueries_transactionSettle:
  "activeQueries (transactionSettle success execTime a) = activeQueries a - 1"
  by (auto simp: transactionSettle_def updateMetrics_def Let_def)

lemma step_balance:
  assumes "step s r = Some r1" and "s \<noteq> SettleDisconnect True"
  shows "activeQueries (adapterState r1) - int (inFlight r1) =
         activeQueries (adapterState r) - int (inFlight r)"
proof (cases s)
  case (CallQuery sql params)
  with assms(1) show ?thesis
    by (auto simp: queryDispatch_def inFlight_def split: if_splits)
next
  case (SettleQuery i outcome)
  with assms(1) have i: "i < length (pendingQueries r)"
    and r1: "r1 = r\<lparr>adapterState :=
                      fst (querySettle outcome (fst (pendingQueries r ! i))
                             (snd (pendingQueries r ! i)) (adapterState r)),
                    pendingQueries := take i (pendingQueries r) @ drop (Suc i) (pendingQueries r)\<rparr>"
    by (auto split: if_splits)
  from i show ?thesis
    by (simp add: r1 activeQueries_querySettle min_def inFlight_def)
next
  case TransactionExecute
  with assms(1) show ?thesis
    by (auto simp: transactionDispatch_def inFlight_def)
next
  case (TransactionSettle success execTime)
  with assms(1) show ?thesis
    by (auto simp: activeQueries_transactionSettle inFlight_def split: if_splits)
next
  case CallDisconnect
  with assms(1) show ?thesis
    by (auto simp: disconnectBegin_def inFlight_def split: if_splits)
next
  case (SettleDisconnect ended)
  with assms show ?thesis
    by (auto simp: disconnectSettle_def inFlight_def split: if_splits)
qed

lemma run_balance:
  assumes "run ss r = Some r1" and "SettleDisconnect True \<notin> set ss"
  shows "activeQueries (adapterState r1) - int (inFlight r1) =
         activeQueries (adapterState r) - int (inFlight r)"
  using assms
proof (induction ss arbitrary: r)
  case Nil
  then show ?case by simp
next
  case (Cons s ss)
  from Cons.prems(1) obtain r2 where s: "step s r = Some r2" and rest: "run ss r2 = Some r1"
    by (auto split: option.splits)
  from Cons.prems(2) have "s \<noteq> SettleDisconnect True" "SettleDisconnect True \<notin> set ss"
    by auto
  with step_balance[OF s] Cons.IH[OF rest] show ?case by simp
qed

lemma run_take:
  "run ss r = Some r1 \<Longrightarrow> \<exists>rk. run (take k ss) r = Some rk"
proof (induction ss arbitrary: r k)
  case Nil
  then show ?case by simp
next
  case (Cons s ss)
  show ?case
  proof (cases k)
    case 0
    then show ?thesis by simp
  next
    case (Suc j)
    from Cons.prems obtain r2 where s: "step s r = Some r2" and rest: "run ss r2 = Some r1"
      by (auto split: option.splits)
    from Cons.IH[OF rest, of j] s Suc show ?thesis by simp
  qed
qed

lemma run_prefix_balance:
  assumes "run ss r = Some r1" and "SettleDisconnect True \<notin> set ss"
    and "activeQueries (adapterState r) = int (inFlight r)"
    and "k \<le> length ss"
  shows "\<exists>rk. run (take k ss) r = Some rk \<and>
           activeQueries (adapterState rk) = int (inFlight rk) \<and>
           0 \<le> activeQueries (adapterState rk)"
proof -
  from run_take[OF assms(1), of k] obtain rk where rk: "run (take k ss) r = Some rk"
    by blast
  from assms(2) have "SettleDisconnect True \<notin> set (take k ss)"
    by (meson in_set_takeD)
  from run_balance[OF rk this] assms(3)
  have "activeQueries (adapterState rk) = int (inFlight rk)"
    by simp
  with rk show ?thesis by simp
qed

lemma step_CallQuery_guard:
  "\<not> poolOpen (adapterState r) \<or> isShuttingDown (adapterState r) \<Longrightarrow>
     isl (queryDispatch (adapterState r)) \<and> step (CallQuery sql params) r = Some r"
  by (auto simp: queryDispatch_def)

lemma step_CallQuery_dispatch:
  "poolOpen (adapterState r) \<and> \<not> isShuttingDown (adapterState r) \<Longrightarrow>
     step (CallQuery sql params) r =
       Some (r\<lparr>adapterState :=
                  (adapterState r)\<lparr>activeQueries := activeQueries (adapterState r) + 1\<rparr>,
               pendingQueries := pendingQueries r @ [(sql, params)]\<rparr>)"
  by (simp add: queryDispatch_def)

lemma single_call:
  assumes "poolOpen (adapterState r) \<and> \<not> isShuttingDown (adapterState r)"
  shows "activeQueriesAfter
           [CallQuery sql params, SettleQuery (length (pendingQueries r)) outcome] r =
         Some (activeQueries (adapterState r))"
  using assms
  by (simp add: activeQueriesAfter_def queryDispatch_def activeQueries_querySettle)

lemma busyTrace_run:
  "\<exists>r1. run busyTrace idleRun = Some r1 \<and> inFlight r1 = 0"
  by (simp add: busyTrace_def idleRun_def idleAdapter_def queryDispatch_def
        querySettle_def updateMetrics_def disconnectBegin_def disconnectSettle_def
        transactionDispatch_def transactionSettle_def inFlight_def Let_def)

lemma busyTrace_take3:
  "\<exists>r3. run (take 3 busyTrace) idleRun = Some r3 \<and> inFlight r3 = 3"
  by (simp add: busyTrace_def idleRun_def idleAdapter_def queryDispatch_def
        transactionDispatch_def inFlight_def)

text \<open>
  C7, as stated, fails. The counter is shared by all calls on the adapter, and a call that
  is suspended at its \<open>await\<close> lets other calls run. On an idle adapter (counter 0) a
  first \<open>query\<close> is called, a second one is called while the first is suspended, and
  the first settles: at its exit the counter is 1, not the 0 of its entry. And when a
  \<open>disconnect\<close> called after a \<open>query\<close> completes before that query settles, it
  resets the counter to 0 and the query's \<open>finally\<close> then takes it to -1.
\<close>

theorem query_counter_overlap_counterexample:
  "activeQueriesAfter [] idleRun = Some 0 \<and>
   activeQueriesAfter
     [CallQuery ''SELECT 1'' [], CallQuery ''SELECT 2'' [],
      SettleQuery 0 (Executed 3 (RowSet []) [])] idleRun = Some 1 \<and>
   activeQueriesAfter
     [CallQuery ''SELECT 1'' [], CallDisconnect, SettleDisconnect True,
      SettleQuery 0 (ExecuteFailed 4 ''Pool is closed.'')] idleRun = Some (- 1)"
  by (simp add: activeQueriesAfter_def idleRun_def idleAdapter_def queryDispatch_def
        querySettle_def updateMetrics_def disconnectBegin_def disconnectSettle_def Let_def)

text \<open>
  C7, amended. A \<open>query\<close> call on an adapter without a pool or shutting down throws at
  its guard and leaves the adapter as it was. Otherwise it adds one to the counter before
  it hands the statement to the driver, and when the driver settles, with rows or with an
  error (a driver timeout is such an error), it takes one off again. So over every run of
  \<open>query\<close> calls, transaction statements and \<open>disconnect\<close> calls in which no
  \<open>disconnect\<close> completes, the counter less the number of statements in flight stays
  what it was; on an adapter whose counter starts at the number of statements in flight
  (0 on an idle adapter) the counter is at every moment of the run that number, hence
  never negative; and a call during which no other call starts or settles leaves the
  counter at its entry value.
\<close>

theorem query_counter_balance:
  "(\<not> poolOpen (adapterState r) \<or> isShuttingDown (adapterState r) \<longrightarrow>
      isl (queryDispatch (adapterState r)) \<and> step (CallQuery sql params) r = Some r) \<and>
   (poolOpen (adapterState r) \<and> \<not> isShuttingDown (adapterState r) \<longrightarrow>
      step (CallQuery sql params) r =
        Some (r\<lparr>adapterState :=
                   (adapterState r)\<lparr>activeQueries := activeQueries (adapterState r) + 1\<rparr>,
                pendingQueries := pendingQueries r @ [(sql, params)]\<rparr>)) \<and>
   activeQueries (fst (querySettle outcome sql params a)) = activeQueries a - 1 \<and>
   (run ss r = Some r1 \<and> SettleDisconnect True \<notin> set ss \<longrightarrow>
      activeQueries (adapterState r1) - int (inFlight r1) =
      activeQueries (adapterState r) - int (inFlight r)) \<and>
   (run ss r = Some r1 \<and> SettleDisconnect True \<notin> set ss \<and>
    activeQueries (adapterState r) = int (inFlight r) \<longrightarrow>
      (\<forall>k \<le> length ss.
         \<exists>rk. run (take k ss) r = Some rk \<and>
              activeQueries (adapterState rk) = int (inFlight rk) \<and>
              0 \<le> activeQueries (adapterState rk))) \<and>
   (poolOpen (adapterState r) \<and> \<not> isShuttingDown (adapterState r) \<longrightarrow>
      activeQueriesAfter
        [CallQuery sql params, SettleQuery (length (pendingQueries r)) outcome] r =
      Some (activeQueries (adapterState r)))"
proof -
  have A: "\<not> poolOpen (adapterState r) \<or> isShuttingDown (adapterState r) \<longrightarrow>
      isl (queryDispatch (adapterState r)) \<and> step (CallQuery sql params) r = Some r"
    using step_CallQuery_guard by blast
  have B: "poolOpen (adapterState r) \<and> \<not> isShuttingDown (adapterState r) \<longrightarrow>
      step (CallQuery sql params) r =
        Some (r\<lparr>adapterState :=
                   (adapterState r)\<lparr>activeQueries := activeQueries (adapterState r) + 1\<rparr>,
                pendingQueries := pendingQueries r @ [(sql, params)]\<rparr>)"
    using step_CallQuery_dispatch by blast
  have C: "activeQueries (fst (querySettle outcome sql params a)) = activeQueries a - 1"
    by (rule activeQueries_querySettle)
  have D: "run ss r = Some r1 \<and> SettleDisconnect True \<notin> set ss \<longrightarrow>
      activeQueries (adapterState r1) - int (inFlight r1) =
      activeQueries (adapterState r) - int (inFlight r)"
    using run_balance by blast
  have E: "run ss r = Some r1 \<and> SettleDisconnect True \<notin> set ss \<and>
    activeQueries (adapterState r) = int (inFlight r) \<longrightarrow>
      (\<forall>k \<le> length ss.
         \<exists>rk. run (take k ss) r = Some rk \<and>
              activeQueries (adapterState rk) = int (inFlight rk) \<and>
              0 \<le> activeQueries (adapterState rk))"
    using run_prefix_balance by blast
  have F: "poolOpen (adapterState r) \<and> \<not> isShuttingDown (adapterState r) \<longrightarrow>
      activeQueriesAfter
        [CallQuery sql params, SettleQuery (length (pendingQueries r)) outcome] r =
      Some (activeQueries (adapterState r))"
    using single_call by blast
  from A B C D E F show ?thesis by (intro conjI)
qed

theorem query_counter_balance_witness:
  "activeQueriesAfter busyTrace idleRun = Some 0 \<and>
   activeQueriesAfter (take 3 busyTrace) idleRun = Some 3 \<and>
   activeQueriesAfter
     [CallQuery ''SELECT 1'' [], SettleQuery 0 (ExecuteFailed 4 ''boom'')] idleRun = Some 0 \<and>
   step (CallQuery ''SELECT 1'' []) (idleRun\<lparr>adapterState := idleAdapter\<lparr>poolOpen := False\<rparr>\<rparr>) =
     Some (idleRun\<lparr>adapterState := idleAdapter\<lparr>poolOpen := False\<rparr>\<rparr>)"
proof -
  from busyTrace_run obtain r1 where r1: "run busyTrace idleRun = Some r1" "inFlight r1 = 0"
    by blast
  from busyTrace_take3 obtain r3 where
    r3: "run (take 3 busyTrace) idleRun = Some r3" "inFlight r3 = 3"
    by blast
  have n: "SettleDisconnect True \<notin> set busyTrace"
    by (simp add: busyTrace_def)
  have i: "activeQueries (adapterState idleRun) = int (inFlight idleRun)"
          "poolOpen (adapterState idleRun) \<and> \<not> isShuttingDown (adapterState idleRun)"
          "pendingQueries idleRun = []"
    by (simp_all add: idleRun_def idleAdapter_def inFlight_def)
  have l: "3 \<le> length busyTrace"
    by (simp add: busyTrace_def)
  note T = query_counter_balance[of idleRun "''SELECT 1''" "[]" "ExecuteFailed 4 ''boom''"
             idleAdapter busyTrace r1]
  from T r1 n i have 1: "activeQueries (adapterState r1) = 0"
    by simp
  from T r1 n i have "\<forall>k \<le> length busyTrace.
         \<exists>rk. run (take k busyTrace) idleRun = Some rk \<and>
              activeQueries (adapterState rk) = int (inFlight rk) \<and>
              0 \<le> activeQueries (adapterState rk)"
    by blast
  with l r3 have 2: "activeQueries (adapterState r3) = 3"
    by fastforce
  from T i have 3: "activeQueriesAfter
     [CallQuery ''SELECT 1'' [], SettleQuery 0 (ExecuteFailed 4 ''boom'')] idleRun = Some 0"
    by (simp add: idleRun_def idleAdapter_def)
  have 4: "step (CallQuery ''SELECT 1'' []) (idleRun\<lparr>adapterState := idleAdapter\<lparr>poolOpen := False\<rparr>\<rparr>) =
     Some (idleRun\<lparr>adapterState := idleAdapter\<lparr>poolOpen := False\<rparr>\<rparr>)"
    using query_counter_balance[of "idleRun\<lparr>adapterState := idleAdapter\<lparr>poolOpen := False\<rparr>\<rparr>"
            "''SELECT 1''" "[]" "ExecuteFailed 4 ''boom''" idleAdapter "[]" idleRun]
    by simp
  from 1 2 3 4 r1 r3 show ?thesis
    by (simp add: activeQueriesAfter_def)
qed

section \<open>Properties of the cross-database dispatcher\<close>

lemma promiseAll_Inr_iff:
  "promiseAll ps = Inr vs \<Longrightarrow> ps = map Inr vs"
  by (induction ps arbitrary: vs rule: promiseAll.induct) (auto split: sum.splits)

lemma promiseAll_fails:
  "(\<exists>p \<in> set ps. isl p) \<Longrightarrow> isl (promiseAll ps)"
  by (induction ps rule: promiseAll.induct) (auto split: sum.splits)

lemma foldl_add_sum_list:
  "foldl (\<lambda>sum r. sum + f r) (a::int) xs = a + sum_list (map f xs)"
  by (induction xs arbitrary: a) auto

lemma crossItem_Inr:
  "crossItem mgr q = Inr r \<Longrightarrow>
     crDatabase r = cqDatabase q \<and>
     crAlias r = (case cqAlias q of
                    Some a \<Rightarrow> if a \<noteq> [] then a else cqDatabase q
                  | None \<Rightarrow> cqDatabase q)"
  by (auto simp: crossItem_def split: sum.splits)

text \<open>
  C3, as stated, fails: with one item that succeeds and one whose adapter query fails,
  the whole call fails and no result of the successful item is returned.
\<close>

theorem cross_query_partial_failure_counterexample:
  "isl (handleCrossDatabaseQuery threePools
     [\<lparr>cqDatabase = ''a'', cqQuery = ''SELECT 1'', cqAlias = Some ''A''\<rparr>,
      \<lparr>cqDatabase = ''bad'', cqQuery = ''SELECT 2'', cqAlias = None\<rparr>]) \<and>
   \<not> isl (crossItem threePools \<lparr>cqDatabase = ''a'', cqQuery = ''SELECT 1'', cqAlias = Some ''A''\<rparr>) \<and>
   isl (crossItem threePools \<lparr>cqDatabase = ''bad'', cqQuery = ''SELECT 2'', cqAlias = None\<rparr>)"
  by (simp add: handleCrossDatabaseQuery_def crossItem_def getConnection_def threePools_def
        okAdapter_def failingAdapter_def)

text \<open>
  C3, amended: the call is all or nothing. If the connection lookup or the adapter query
  of any item fails, the whole call fails; results are returned only when every item
  succeeds.
\<close>

theorem cross_query_all_or_nothing:
  "(\<exists>q \<in> set queries. isl (crossItem mgr q)) \<longrightarrow> isl (handleCrossDatabaseQuery mgr queries)"
proof
  assume "\<exists>q \<in> set queries. isl (crossItem mgr q)"
  then have "isl (promiseAll (map (crossItem mgr) queries))"
    by (intro promiseAll_fails) auto
  then obtain err where "promiseAll (map (crossItem mgr) queries) = Inl err"
    by (auto simp: isl_def)
  then show "isl (handleCrossDatabaseQuery mgr queries)"
    by (simp add: handleCrossDatabaseQuery_def)
qed

theorem cross_query_all_or_nothing_witness:
  "isl (handleCrossDatabaseQuery threePools
     [\<lparr>cqDatabase = ''b'', cqQuery = ''SELECT 1'', cqAlias = None\<rparr>,
      \<lparr>cqDatabase = ''nowhere'', cqQuery = ''SELECT 2'', cqAlias = None\<rparr>])"
proof -
  have "isl (crossItem threePools \<lparr>cqDatabase = ''nowhere'', cqQuery = ''SELECT 2'', cqAlias = None\<rparr>)"
    by (simp add: crossItem_def getConnection_def threePools_def)
  then show ?thesis
    using cross_query_all_or_nothing[of
            "[\<lparr>cqDatabase = ''b'', cqQuery = ''SELECT 1'', cqAlias = None\<rparr>,
              \<lparr>cqDatabase = ''nowhere'', cqQuery = ''SELECT 2'', cqAlias = None\<rparr>]" threePools]
    by simp
qed

text \<open>
  C4: a cross-database call over \<open>K\<close> items that succeeds returns \<open>K\<close> results in
  input order, each with its input's pool name and with the input alias (the pool name
  when the alias is absent or empty); the summary counts \<open>K\<close> queries and sums the
  per-item row counts and execution times.
\<close>

theorem cross_query_order:
  assumes "handleCrossDatabaseQuery mgr queries = Inr resp"
  shows "length (results resp) = length queries \<and>
         (\<forall>i < length queries.
            crDatabase (results resp ! i) = cqDatabase (queries ! i) \<and>
            crAlias (results resp ! i) =
              (case cqAlias (queries ! i) of
                 Some a \<Rightarrow> if a \<noteq> [] then a else cqDatabase (queries ! i)
               | None \<Rightarrow> cqDatabase (queries ! i))) \<and>
         totalQueries (summary resp) = int (length queries) \<and>
         sumRows (summary resp) = sum_list (map crRowCount (results resp)) \<and>
         totalExecutionTimeSum (summary resp) = sum_list (map crExecutionTime (results resp))"
proof -
  from assms obtain rs where
    rs: "promiseAll (map (crossItem mgr) queries) = Inr rs" and
    resp: "resp = \<lparr>summary =
                   \<lparr>totalQueries = int (length rs),
                    sumRows = foldl (\<lambda>sum r. sum + crRowCount r) 0 rs,
                    totalExecutionTimeSum = foldl (\<lambda>sum r. sum + crExecutionTime r) 0 rs\<rparr>,
                 results = rs\<rparr>"
    by (auto simp: handleCrossDatabaseQuery_def split: if_splits sum.splits)
  from rs have m: "map (crossItem mgr) queries = map Inr rs"
    by (simp add: promiseAll_Inr_iff)
  then have len: "length rs = length queries"
    by (metis length_map)
  have item: "crossItem mgr (queries ! i) = Inr (rs ! i)" if "i < length queries" for i
    using m that len by (metis nth_map)
  have fields: "crDatabase (rs ! i) = cqDatabase (queries ! i) \<and>
            crAlias (rs ! i) =
              (case cqAlias (queries ! i) of
                 Some a \<Rightarrow> if a \<noteq> [] then a else cqDatabase (queries ! i)
               | None \<Rightarrow> cqDatabase (queries ! i))" if "i < length queries" for i
    using item[OF that] by (rule crossItem_Inr)
  show ?thesis
    using len fields by (simp add: resp foldl_add_sum_list)
qed

theorem cross_query_order_witness:
  "\<exists>resp. handleCrossDatabaseQuery threePools
             [\<lparr>cqDatabase = ''a'', cqQuery = ''SELECT 1'', cqAlias = Some ''A''\<rparr>,
              \<lparr>cqDatabase = ''b'', cqQuery = ''SELECT 2'', cqAlias = None\<rparr>] = Inr resp \<and>
          length (results resp) = 2 \<and>
          crDatabase (results resp ! 0) = ''a'' \<and> crAlias (results resp ! 0) = ''A'' \<and>
          crDatabase (results resp ! 1) = ''b'' \<and> crAlias (results resp ! 1) = ''b'' \<and>
          totalQueries (summary resp) = 2 \<and> sumRows (summary resp) = 8 \<and>
          totalExecutionTimeSum (summary resp) = 10"
proof -
  obtain resp where h: "handleCrossDatabaseQuery threePools
             [\<lparr>cqDatabase = ''a'', cqQuery = ''SELECT 1'', cqAlias = Some ''A''\<rparr>,
              \<lparr>cqDatabase = ''b'', cqQuery = ''SELECT 2'', cqAlias = None\<rparr>] = Inr resp"
    and r: "map crRowCount (results resp) = [3, 5]"
           "map crExecutionTime (results resp) = [4, 6]"
    by (simp add: handleCrossDatabaseQuery_def crossItem_def getConnection_def threePools_def
          okAdapter_def)
  show ?thesis
    using cross_query_order[OF h] h r by simp
qed

section \<open>Properties of the schema cache warm-up\<close>

lemma logged_evictEntries: "set (logged c) \<subseteq> set (logged (evictEntries c n))"
  by (auto simp: evictEntries_def logMsg_def Let_def)

lemma logged_cacheSet: "set (logged c) \<subseteq> set (logged (cacheSet sizeOf c key d))"
  using logged_evictEntries[of c "sizeOf d"]
  by (auto simp: cacheSet_def logMsg_def Let_def)

lemma logged_warmupTables_mono:
  "set (logged c) \<subseteq> set (logged (warmupTables sizeOf profileTable db c ts))"
proof (induction ts arbitrary: c)
  case Nil
  then show ?case by simp
next
  case (Cons t ts)
  let ?c1 = "setTableInfo sizeOf c db (tableName t) t"
  have 1: "set (logged c) \<subseteq> set (logged ?c1)"
    by (simp add: setTableInfo_def logged_cacheSet)
  have 2: "set (logged ?c1) \<subseteq> set (logged (setTableProfile sizeOf ?c1 db (tableName t) p))" for p
    by (simp add: setTableProfile_def logged_cacheSet)
  have 3: "set (logged ?c1) \<subseteq> set (logged (logMsg LogWarn m ?c1))" for m
    by (auto simp: logMsg_def)
  show ?case
    using 1 2 3 Cons.IH
    by (simp add: Let_def split: sum.splits option.splits) (meson subset_trans)
qed

lemma logged_warmupTables_warn:
  assumes "t \<in> set ts"
    and "(case tableRowCount t of Some n \<Rightarrow> n | None \<Rightarrow> 0) < 10000"
    and "isl (profileTable (tableName t))"
  shows "(LogWarn, ''Failed to warm up table profile'')
           \<in> set (logged (warmupTables sizeOf profileTable db c ts))"
  using assms(1)
proof (induction ts arbitrary: c)
  case Nil
  then show ?case by simp
next
  case (Cons u ts)
  show ?case
  proof (cases "t = u")
    case True
    let ?c2 = "logMsg LogWarn ''Failed to warm up table profile''
                 (setTableInfo sizeOf c db (tableName u) u)"
    have "(LogWarn, ''Failed to warm up table profile'') \<in> set (logged ?c2)"
      by (simp add: logMsg_def)
    then have "(LogWarn, ''Failed to warm up table profile'')
                 \<in> set (logged (warmupTables sizeOf profileTable db ?c2 ts))"
      using logged_warmupTables_mono by blast
    then show ?thesis
      using True assms(2,3) by (auto simp: Let_def isl_def)
  next
    case False
    with Cons.prems have "t \<in> set ts" by simp
    from Cons.IH[OF this] show ?thesis by (simp add: Let_def)
  qed
qed

subsection \<open>Counting the log records\<close>

lemma logged_logMsg: "logged (logMsg l m c) = logged c @ [(l, m)]"
  by (simp add: logMsg_def)

lemma loggedAt_logMsg:
  "loggedAt lvl (logMsg l m c) = loggedAt lvl c + (if l = lvl then 1 else 0)"
  by (simp add: loggedAt_def logMsg_def)

lemma loggedAt_cache_update [simp]: "loggedAt lvl (c\<lparr>cache := x\<rparr>) = loggedAt lvl c"
  by (simp add: loggedAt_def)

lemma loggedAt_evictEntries:
  "lvl \<noteq> LogInfo \<Longrightarrow> loggedAt lvl (evictEntries c n) = loggedAt lvl c"
  by (simp add: evictEntries_def Let_def loggedAt_logMsg)

lemma loggedAt_cacheSet:
  "lvl \<noteq> LogInfo \<Longrightarrow>
     loggedAt lvl (cacheSet sizeOf c key d) = loggedAt lvl c + (if lvl = LogDebug then 1 else 0)"
  by (auto simp: cacheSet_def Let_def loggedAt_logMsg loggedAt_evictEntries)

lemma warmupTables_Cons:
  "warmupTables sizeOf profileTable db c (t # ts) =
     warmupTables sizeOf profileTable db (tableStep sizeOf profileTable db c t) ts"
  by (simp add: tableStep_def Let_def)

lemma loggedAt_tableStep:
  "loggedAt LogWarn (tableStep sizeOf profileTable db c t) =
     loggedAt LogWarn c + (if profileFails profileTable t then 1 else 0) \<and>
   loggedAt LogDebug (tableStep sizeOf profileTable db c t) =
     loggedAt LogDebug c + 1 + (if profileStored profileTable t then 1 else 0) \<and>
   loggedAt LogError (tableStep sizeOf profileTable db c t) = loggedAt LogError c"
  by (auto simp: tableStep_def setTableInfo_def setTableProfile_def loggedAt_cacheSet
        loggedAt_logMsg profileFails_def profileStored_def split: sum.splits option.splits)

lemma loggedAt_warmupTables:
  "loggedAt LogWarn (warmupTables sizeOf profileTable db c ts) =
     loggedAt LogWarn c + length (filter (profileFails profileTable) ts) \<and>
   loggedAt LogDebug (warmupTables sizeOf profileTable db c ts) =
     loggedAt LogDebug c + length ts + length (filter (profileStored profileTable) ts) \<and>
   loggedAt LogError (warmupTables sizeOf profileTable db c ts) = loggedAt LogError c"
proof (induction ts arbitrary: c)
  case Nil
  then show ?case by simp
next
  case (Cons t ts)
  note IH = Cons.IH[of "tableStep sizeOf profileTable db c t"]
  note st = loggedAt_tableStep[of sizeOf profileTable db c t]
  show ?case
    unfolding warmupTables_Cons using IH st by simp
qed

text \<open>
  C9, as stated, fails: a failure of \<open>getDatabaseInfo\<close> makes the warm-up fail with
  that error.
\<close>

theorem warmup_failure_counterexample:
  "snd (warmup flatSize emptyCache ''shop'' brokenAnalyzer noProfile) = Inl ''connection lost''"
  by (simp add: warmup_def warmupFailed_def brokenAnalyzer_def)

text \<open>
  C9, amended. A failure of \<open>getDatabaseInfo\<close>, \<open>analyzeFullSchema\<close> or
  \<open>getTableRelationships\<close> is logged as an error and rethrown: the warm-up fails with
  that error. When those three succeed the warm-up returns normally whatever the profiler
  does, and a failing profile does not end the loop: the resulting cache is that of the
  loop run over all tables of the schema, the log gains one warning for each table below
  the profiling limit whose profile throws, one "Cache set" record for each of the three
  prefetched items, for each table and for each stored profile, and no error record.
\<close>

theorem warmup_failures:
  "(getDatabaseInfo analyzer = Inl err \<longrightarrow>
      warmup sizeOf c db analyzer profileTable =
        (logMsg LogError ''Cache warmup failed'' (logMsg LogInfo ''Starting cache warmup'' c),
         Inl err)) \<and>
   (getDatabaseInfo analyzer = Inr info \<and> analyzeFullSchema analyzer = Inl err \<longrightarrow>
      snd (warmup sizeOf c db analyzer profileTable) = Inl err \<and>
      (LogError, ''Cache warmup failed'') \<in> set (logged (fst (warmup sizeOf c db analyzer profileTable)))) \<and>
   (getDatabaseInfo analyzer = Inr info \<and> analyzeFullSchema analyzer = Inr schema \<and>
    getTableRelationships analyzer = Inl err \<longrightarrow>
      snd (warmup sizeOf c db analyzer profileTable) = Inl err \<and>
      (LogError, ''Cache warmup failed'') \<in> set (logged (fst (warmup sizeOf c db analyzer profileTable)))) \<and>
   (getDatabaseInfo analyzer = Inr info \<and> analyzeFullSchema analyzer = Inr schema \<and>
    getTableRelationships analyzer = Inr rels \<longrightarrow>
      snd (warmup sizeOf c db analyzer profileTable) = Inr () \<and>
      fst (warmup sizeOf c db analyzer profileTable) =
        logMsg LogInfo ''Cache warmup completed''
          (warmupTables sizeOf profileTable db
             (setTableRelationships sizeOf
                (setFullSchema sizeOf
                   (setDatabaseInfo sizeOf (logMsg LogInfo ''Starting cache warmup'' c) db info)
                   db schema)
                db rels)
             (tables schema)) \<and>
      loggedAt LogWarn (fst (warmup sizeOf c db analyzer profileTable)) =
        loggedAt LogWarn c + length (filter (profileFails profileTable) (tables schema)) \<and>
      loggedAt LogDebug (fst (warmup sizeOf c db analyzer profileTable)) =
        loggedAt LogDebug c + 3 + length (tables schema) +
        length (filter (profileStored profileTable) (tables schema)) \<and>
      loggedAt LogError (fst (warmup sizeOf c db analyzer profileTable)) = loggedAt LogError c \<and>
      (\<forall>t \<in> set (tables schema).
         profileFails profileTable t \<longrightarrow>
         (LogWarn, ''Failed to warm up table profile'')
           \<in> set (logged (fst (warmup sizeOf c db analyzer profileTable)))))"
proof -
  have A: "getDatabaseInfo analyzer = Inl err \<longrightarrow>
      warmup sizeOf c db analyzer profileTable =
        (logMsg LogError ''Cache warmup failed'' (logMsg LogInfo ''Starting cache warmup'' c),
         Inl err)"
    by (simp add: warmup_def warmupFailed_def)
  have B: "getDatabaseInfo analyzer = Inr info \<and> analyzeFullSchema analyzer = Inl err \<longrightarrow>
      snd (warmup sizeOf c db analyzer profileTable) = Inl err \<and>
      (LogError, ''Cache warmup failed'') \<in> set (logged (fst (warmup sizeOf c db analyzer profileTable)))"
    by (simp add: warmup_def warmupFailed_def logged_logMsg)
  have C: "getDatabaseInfo analyzer = Inr info \<and> analyzeFullSchema analyzer = Inr schema \<and>
    getTableRelationships analyzer = Inl err \<longrightarrow>
      snd (warmup sizeOf c db analyzer profileTable) = Inl err \<and>
      (LogError, ''Cache warmup failed'') \<in> set (logged (fst (warmup sizeOf c db analyzer profileTable)))"
    by (simp add: warmup_def warmupFailed_def logged_logMsg)
  have D: "snd (warmup sizeOf c db analyzer profileTable) = Inr () \<and>
      fst (warmup sizeOf c db analyzer profileTable) =
        logMsg LogInfo ''Cache warmup completed''
          (warmupTables sizeOf profileTable db
             (setTableRelationships sizeOf
                (setFullSchema sizeOf
                   (setDatabaseInfo sizeOf (logMsg LogInfo ''Starting cache warmup'' c) db info)
                   db schema)
                db rels)
             (tables schema)) \<and>
      loggedAt LogWarn (fst (warmup sizeOf c db analyzer profileTable)) =
        loggedAt LogWarn c + length (filter (profileFails profileTable) (tables schema)) \<and>
      loggedAt LogDebug (fst (warmup sizeOf c db analyzer profileTable)) =
        loggedAt LogDebug c + 3 + length (tables schema) +
        length (filter (profileStored profileTable) (tables schema)) \<and>
      loggedAt LogError (fst (warmup sizeOf c db analyzer profileTable)) = loggedAt LogError c \<and>
      (\<forall>t \<in> set (tables schema).
         profileFails profileTable t \<longrightarrow>
         (LogWarn, ''Failed to warm up table profile'')
           \<in> set (logged (fst (warmup sizeOf c db analyzer profileTable))))"
    if h: "getDatabaseInfo analyzer = Inr info \<and> analyzeFullSchema analyzer = Inr schema \<and>
           getTableRelationships analyzer = Inr rels"
  proof -
    let ?c3 = "setTableRelationships sizeOf
                (setFullSchema sizeOf
                   (setDatabaseInfo sizeOf (logMsg LogInfo ''Starting cache warmup'' c) db info)
                   db schema)
                db rels"
    let ?c4 = "warmupTables sizeOf profileTable db ?c3 (tables schema)"
    have w: "warmup sizeOf c db analyzer profileTable =
               (logMsg LogInfo ''Cache warmup completed'' ?c4, Inr ())"
      using h by (simp add: warmup_def Let_def)
    have c3: "loggedAt LogWarn ?c3 = loggedAt LogWarn c"
             "loggedAt LogDebug ?c3 = loggedAt LogDebug c + 3"
             "loggedAt LogError ?c3 = loggedAt LogError c"
      by (simp_all add: setDatabaseInfo_def setFullSchema_def setTableRelationships_def
            loggedAt_cacheSet loggedAt_logMsg)
    note c4 = loggedAt_warmupTables[of sizeOf profileTable db ?c3 "tables schema"]
    have warn: "(LogWarn, ''Failed to warm up table profile'') \<in> set (logged ?c4)"
      if "t \<in> set (tables schema)" and "profileFails profileTable t" for t
      using that logged_warmupTables_warn[of t "tables schema" profileTable sizeOf db ?c3]
      by (simp add: profileFails_def)
    show ?thesis
      unfolding w using c3 c4 warn by (simp add: loggedAt_logMsg logged_logMsg)
  qed
  from A B C D show ?thesis by blast
qed

theorem warmup_failures_witness:
  "snd (warmup flatSize emptyCache ''shop'' shopAnalyzer flakyProfiler) = Inr () \<and>
   loggedAt LogWarn (fst (warmup flatSize emptyCache ''shop'' shopAnalyzer flakyProfiler)) = 1 \<and>
   loggedAt LogDebug (fst (warmup flatSize emptyCache ''shop'' shopAnalyzer flakyProfiler)) = 7 \<and>
   loggedAt LogError (fst (warmup flatSize emptyCache ''shop'' shopAnalyzer flakyProfiler)) = 0 \<and>
   (LogWarn, ''Failed to warm up table profile'')
     \<in> set (logged (fst (warmup flatSize emptyCache ''shop'' shopAnalyzer flakyProfiler))) \<and>
   warmup flatSize emptyCache ''shop'' brokenAnalyzer flakyProfiler =
     (logMsg LogError ''Cache warmup failed''
        (logMsg LogInfo ''Starting cache warmup'' emptyCache),
      Inl ''connection lost'')"
proof -
  have b: "getDatabaseInfo brokenAnalyzer = Inl ''connection lost''"
    by (simp add: brokenAnalyzer_def)
  have w: "warmup flatSize emptyCache ''shop'' brokenAnalyzer flakyProfiler =
     (logMsg LogError ''Cache warmup failed''
        (logMsg LogInfo ''Starting cache warmup'' emptyCache),
      Inl ''connection lost'')"
    using warmup_failures[of brokenAnalyzer "''connection lost''" flatSize emptyCache
            "''shop''" flakyProfiler "''shop''" shopSchema "[]"] b
    by blast
  have a: "getDatabaseInfo shopAnalyzer = Inr ''shop'' \<and>
           analyzeFullSchema shopAnalyzer = Inr shopSchema \<and>
           getTableRelationships shopAnalyzer = Inr []"
    by (simp add: shopAnalyzer_def)
  have f: "filter (profileFails flakyProfiler) (tables shopSchema) =
             [\<lparr>tableName = ''orders'', tableRowCount = Some 12\<rparr>]"
    by (simp add: shopSchema_def profileFails_def flakyProfiler_def)
  have s: "filter (profileStored flakyProfiler) (tables shopSchema) =
             [\<lparr>tableName = ''items'', tableRowCount = None\<rparr>]"
    by (simp add: shopSchema_def profileStored_def flakyProfiler_def)
  have l: "length (tables shopSchema) = 3"
    by (simp add: shopSchema_def)
  have o: "\<lparr>tableName = ''orders'', tableRowCount = Some 12\<rparr> \<in> set (tables shopSchema)"
          "profileFails flakyProfiler \<lparr>tableName = ''orders'', tableRowCount = Some 12\<rparr>"
    by (simp_all add: shopSchema_def profileFails_def flakyProfiler_def)
  have e: "loggedAt LogWarn emptyCache = 0" "loggedAt LogDebug emptyCache = 0"
          "loggedAt LogError emptyCache = 0"
    by (simp_all add: loggedAt_def emptyCache_def)
  show ?thesis
    using warmup_failures[of shopAnalyzer "''x''" flatSize emptyCache "''shop''" flakyProfiler
            "''shop''" shopSchema "[]"] a f s l o e w
    by auto
qed

section \<open>Properties of the adapter factory\<close>

text \<open>
  C5, as stated, fails: with no explicit type, port 5432 and a host containing
  \<open>mysql\<close>, the detected type is mysql and not postgresql, because the mysql test
  (port 3306 or host substring) is made as a whole before the postgresql test.
\<close>

theorem detect_port_5432_host_mysql_counterexample:
  "detectDatabaseType \<lparr>host = ''mysql-replica.internal'', port = 5432, dbType = None\<rparr>
     \<noteq> postgresql"
  by (simp add: detectDatabaseType_def strIncludes_def sublist_code)

text \<open>
  C5, amended: the precedence is (1) the explicit type when set; else (2) mysql when the
  port is 3306 or the host contains \<open>mysql\<close>; else (3) postgresql when the port is 5432
  or the host contains \<open>postgres\<close>; else (4) mysql. In particular port 5432 with a host
  containing \<open>mysql\<close> gives mysql.
\<close>

theorem detectDatabaseType_precedence:
  "(dbType config = Some t \<longrightarrow> detectDatabaseType config = t) \<and>
   (dbType config = None \<and> (port config = 3306 \<or> strIncludes (host config) ''mysql'')
      \<longrightarrow> detectDatabaseType config = mysql) \<and>
   (dbType config = None \<and> port config \<noteq> 3306 \<and> \<not> strIncludes (host config) ''mysql'' \<and>
      (port config = 5432 \<or> strIncludes (host config) ''postgres'')
      \<longrightarrow> detectDatabaseType config = postgresql) \<and>
   (dbType config = None \<and> port config \<noteq> 3306 \<and> \<not> strIncludes (host config) ''mysql'' \<and>
      port config \<noteq> 5432 \<and> \<not> strIncludes (host config) ''postgres''
      \<longrightarrow> detectDatabaseType config = mysql) \<and>
   (dbType config = None \<and> port config = 5432 \<and> strIncludes (host config) ''mysql''
      \<longrightarrow> detectDatabaseType config = mysql)"
  by (simp add: detectDatabaseType_def)

theorem detectDatabaseType_precedence_witness:
  "detectDatabaseType \<lparr>host = ''db.local'', port = 5432, dbType = Some sqlite\<rparr> = sqlite \<and>
   detectDatabaseType \<lparr>host = ''db.local'', port = 3306, dbType = None\<rparr> = mysql \<and>
   detectDatabaseType \<lparr>host = ''my-postgres.example'', port = 6000, dbType = None\<rparr> = postgresql \<and>
   detectDatabaseType \<lparr>host = ''db.local'', port = 6000, dbType = None\<rparr> = mysql \<and>
   detectDatabaseType \<lparr>host = ''mysql.local'', port = 5432, dbType = None\<rparr> = mysql"
  using detectDatabaseType_precedence
          [of "\<lparr>host = ''db.local'', port = 5432, dbType = Some sqlite\<rparr>" sqlite]
        detectDatabaseType_precedence
          [of "\<lparr>host = ''db.local'', port = 3306, dbType = None\<rparr>"]
        detectDatabaseType_precedence
          [of "\<lparr>host = ''my-postgres.example'', port = 6000, dbType = None\<rparr>"]
        detectDatabaseType_precedence
          [of "\<lparr>host = ''db.local'', port = 6000, dbType = None\<rparr>"]
        detectDatabaseType_precedence
          [of "\<lparr>host = ''mysql.local'', port = 5432, dbType = None\<rparr>"]
  by (simp add: strIncludes_def sublist_code)

end
